theory Spec2Isabelle
  imports Complex_Main
begin

section \<open>Book management service: validation and resource handlers\<close>

text \<open>
  A shallow embedding of \<^verbatim>\<open>src/app.py\<close>: the validator \<^verbatim>\<open>validate_book_data\<close> and the
  handlers \<^verbatim>\<open>BookList.get/post\<close> and \<^verbatim>\<open>BookResource.get/put/delete\<close>.

  The request body is the value that \<^verbatim>\<open>request.get_json()\<close> returns, a decoded JSON
  value. Python exceptions are values of \<open>py_error\<close>; a function that may raise returns
  \<open>py_error + 'a\<close> with \<open>Inl\<close> for the exception.
\<close>

subsection \<open>Decoded JSON values and the Python builtins the code applies to them\<close>

text \<open>
  A Python float is modelled by its exact rational value, or one of the three special
  values. A string is a list of code points below 256. A dict is an association list
  with distinct keys, read with \<open>map_of\<close>.
\<close>

datatype pyfloat = Finite rat | PosInf | NegInf | NaN

datatype json =
    JNull
  | JBool bool
  | JInt int
  | JFloat pyfloat
  | JStr string
  | JList "json list"
  | JObj "(string \<times> json) list"

datatype py_error =
    AttributeError
  | TypeError
  | ValueError
  | KeyError
  | OverflowError
  | SQLAlchemyError

text \<open>Truth value of a Python object, as \<^verbatim>\<open>not x\<close> and \<^verbatim>\<open>if x\<close> test it.\<close>

fun truthy :: "json \<Rightarrow> bool" where
  "truthy JNull = False"
| "truthy (JBool b) = b"
| "truthy (JInt n) = (n \<noteq> 0)"
| "truthy (JFloat (Finite q)) = (q \<noteq> 0)"
| "truthy (JFloat PosInf) = True"
| "truthy (JFloat NegInf) = True"
| "truthy (JFloat NaN) = True"
| "truthy (JStr s) = (s \<noteq> [])"
| "truthy (JList xs) = (xs \<noteq> [])"
| "truthy (JObj kvs) = (kvs \<noteq> [])"

text \<open>\<^verbatim>\<open>data.get(k)\<close> and \<^verbatim>\<open>data.get(k, d)\<close>: only a dict has the method.\<close>

definition dict_get :: "(string \<times> json) list \<Rightarrow> string \<Rightarrow> json \<Rightarrow> json" where
  "dict_get kvs k d = (case map_of kvs k of None \<Rightarrow> d | Some v \<Rightarrow> v)"

fun py_get :: "json \<Rightarrow> string \<Rightarrow> json \<Rightarrow> py_error + json" where
  "py_get (JObj kvs) k d = Inr (dict_get kvs k d)"
| "py_get _ k d = Inl AttributeError"

text \<open>\<^verbatim>\<open>data[k]\<close> on the decoded body.\<close>

fun py_getitem :: "json \<Rightarrow> string \<Rightarrow> py_error + json" where
  "py_getitem (JObj kvs) k = (case map_of kvs k of None \<Rightarrow> Inl KeyError | Some v \<Rightarrow> Inr v)"
| "py_getitem _ k = Inl TypeError"

text \<open>\<^verbatim>\<open>k in data\<close>: key membership for a dict, element membership for a list,
  substring test for a string, TypeError for the values that are not containers.\<close>

fun is_prefix :: "string \<Rightarrow> string \<Rightarrow> bool" where
  "is_prefix [] ys = True"
| "is_prefix (x # xs) [] = False"
| "is_prefix (x # xs) (y # ys) = (x = y \<and> is_prefix xs ys)"

fun is_substring :: "string \<Rightarrow> string \<Rightarrow> bool" where
  "is_substring xs [] = (xs = [])"
| "is_substring xs (y # ys) = (is_prefix xs (y # ys) \<or> is_substring xs ys)"

fun py_contains :: "string \<Rightarrow> json \<Rightarrow> py_error + bool" where
  "py_contains k (JObj kvs) = Inr (map_of kvs k \<noteq> None)"
| "py_contains k (JList xs) = Inr (JStr k \<in> set xs)"
| "py_contains k (JStr s) = Inr (is_substring k s)"
| "py_contains k _ = Inl TypeError"

text \<open>\<^verbatim>\<open>str.strip()\<close>: the whitespace code points below 256.\<close>

definition is_space :: "char \<Rightarrow> bool" where
  "is_space c = (let n = of_char c :: nat in
     (9 \<le> n \<and> n \<le> 13) \<or> (28 \<le> n \<and> n \<le> 32) \<or> n = 133 \<or> n = 160)"

definition strip :: "string \<Rightarrow> string" where
  "strip s = rev (dropWhile is_space (rev (dropWhile is_space s)))"

fun py_strip :: "json \<Rightarrow> py_error + string" where
  "py_strip (JStr s) = Inr (strip s)"
| "py_strip _ = Inl AttributeError"

text \<open>
  \<^verbatim>\<open>int(x)\<close>. For a string: surrounding whitespace is dropped, then an optional sign and
  decimal digits, where single underscores may separate digits; a string with more than
  4300 digits is refused (the interpreter's default limit). The whitespace that
  \<^verbatim>\<open>int()\<close> drops is not that of \<^verbatim>\<open>strip()\<close>: the separators 28 to 31 are not in it.
  A float is truncated towards zero; \<^verbatim>\<open>int(nan)\<close> raises ValueError and \<^verbatim>\<open>int(inf)\<close>
  raises OverflowError.
\<close>

definition is_int_space :: "char \<Rightarrow> bool" where
  "is_int_space c = (let n = of_char c :: nat in
     (9 \<le> n \<and> n \<le> 13) \<or> n = 32 \<or> n = 133 \<or> n = 160)"

definition int_strip :: "string \<Rightarrow> string" where
  "int_strip s = rev (dropWhile is_int_space (rev (dropWhile is_int_space s)))"

definition is_digit :: "char \<Rightarrow> bool" where
  "is_digit c = (let n = of_char c :: nat in 48 \<le> n \<and> n \<le> 57)"

definition digit_val :: "char \<Rightarrow> nat" where
  "digit_val c = of_char c - 48"

fun parse_dec :: "nat \<Rightarrow> string \<Rightarrow> nat option" where
  "parse_dec acc [] = Some acc"
| "parse_dec acc [c] = (if is_digit c then Some (10 * acc + digit_val c) else None)"
| "parse_dec acc (c # d # ds) =
     (if is_digit c then parse_dec (10 * acc + digit_val c) (d # ds)
      else if c = CHR ''_'' \<and> is_digit d then parse_dec (10 * acc + digit_val d) ds
      else None)"

definition parse_unsigned :: "string \<Rightarrow> nat option" where
  "parse_unsigned s =
     (case s of [] \<Rightarrow> None
      | c # cs \<Rightarrow> if is_digit c then parse_dec (digit_val c) cs else None)"

definition max_str_digits :: nat where
  "max_str_digits = 4300"

definition digits_of :: "string \<Rightarrow> py_error + nat" where
  "digits_of s =
     (case parse_unsigned s of
        None \<Rightarrow> Inl ValueError
      | Some n \<Rightarrow> if max_str_digits < length (filter is_digit s) then Inl ValueError else Inr n)"

definition int_of_string :: "string \<Rightarrow> py_error + int" where
  "int_of_string s =
     (case int_strip s of
        [] \<Rightarrow> Inl ValueError
      | c # cs \<Rightarrow>
          if c = CHR ''-'' then
            (case digits_of cs of Inl e \<Rightarrow> Inl e | Inr n \<Rightarrow> Inr (- int n))
          else if c = CHR ''+'' then
            (case digits_of cs of Inl e \<Rightarrow> Inl e | Inr n \<Rightarrow> Inr (int n))
          else
            (case digits_of (c # cs) of Inl e \<Rightarrow> Inl e | Inr n \<Rightarrow> Inr (int n)))"

definition float_trunc :: "rat \<Rightarrow> int" where
  "float_trunc q = (if 0 \<le> q then \<lfloor>q\<rfloor> else \<lceil>q\<rceil>)"

fun py_int :: "json \<Rightarrow> py_error + int" where
  "py_int JNull = Inl TypeError"
| "py_int (JBool b) = Inr (if b then 1 else 0)"
| "py_int (JInt n) = Inr n"
| "py_int (JFloat (Finite q)) = Inr (float_trunc q)"
| "py_int (JFloat PosInf) = Inl OverflowError"
| "py_int (JFloat NegInf) = Inl OverflowError"
| "py_int (JFloat NaN) = Inl ValueError"
| "py_int (JStr s) = int_of_string s"
| "py_int (JList xs) = Inl TypeError"
| "py_int (JObj kvs) = Inl TypeError"

text \<open>\<^verbatim>\<open>str(n)\<close> for an integer, as the f-string of the range message formats the year.\<close>

definition digit_char :: "nat \<Rightarrow> char" where
  "digit_char n = char_of (48 + n mod 10)"

fun str_nat :: "nat \<Rightarrow> string" where
  "str_nat n = (if n < 10 then [digit_char n] else str_nat (n div 10) @ [digit_char n])"

declare str_nat.simps [simp del]

definition str_int :: "int \<Rightarrow> string" where
  "str_int i = (if i < 0 then CHR ''-'' # str_nat (nat (- i)) else str_nat (nat i))"

subsection \<open>The validator\<close>

text \<open>
  \<^verbatim>\<open>validate_book_data(data, partial=False)\<close>, lines 84 to 110. The function is four
  consecutive blocks, each appending to \<^verbatim>\<open>errors\<close>; each block is one definition here,
  taking the list built so far. \<open>cy\<close> is \<^verbatim>\<open>datetime.now().year\<close>.
\<close>

definition field_selected :: "bool \<Rightarrow> string \<Rightarrow> json \<Rightarrow> py_error + bool" where
  \<comment> \<open>\<^verbatim>\<open>not partial or k in data\<close>: the membership test runs only in partial mode\<close>
  "field_selected partial k data = (if \<not> partial then Inr True else py_contains k data)"

definition check_title :: "json \<Rightarrow> bool \<Rightarrow> string list \<Rightarrow> py_error + string list" where
  "check_title data partial errors =
     (case field_selected partial ''title'' data of
        Inl e \<Rightarrow> Inl e
      | Inr False \<Rightarrow> Inr errors
      | Inr True \<Rightarrow>
          (case py_get data ''title'' JNull of
             Inl e \<Rightarrow> Inl e
           | Inr v \<Rightarrow>
               if \<not> truthy v then Inr (errors @ [''Title is required''])
               else
                 (case py_get data ''title'' (JStr []) of
                    Inl e \<Rightarrow> Inl e
                  | Inr w \<Rightarrow>
                      (case py_strip w of
                         Inl e \<Rightarrow> Inl e
                       | Inr s \<Rightarrow>
                           if length s = 0 then Inr (errors @ [''Title is required''])
                           else Inr errors))))"

definition check_author :: "json \<Rightarrow> bool \<Rightarrow> string list \<Rightarrow> py_error + string list" where
  "check_author data partial errors =
     (case field_selected partial ''author'' data of
        Inl e \<Rightarrow> Inl e
      | Inr False \<Rightarrow> Inr errors
      | Inr True \<Rightarrow>
          (case py_get data ''author'' JNull of
             Inl e \<Rightarrow> Inl e
           | Inr v \<Rightarrow>
               if \<not> truthy v then Inr (errors @ [''Author is required''])
               else
                 (case py_get data ''author'' (JStr []) of
                    Inl e \<Rightarrow> Inl e
                  | Inr w \<Rightarrow>
                      (case py_strip w of
                         Inl e \<Rightarrow> Inl e
                       | Inr s \<Rightarrow>
                           if length s = 0 then Inr (errors @ [''Author is required''])
                           else Inr errors))))"

definition range_message :: "int \<Rightarrow> string" where
  "range_message cy = ''Year must be between 0 and '' @ str_int cy"

definition check_year :: "int \<Rightarrow> json \<Rightarrow> bool \<Rightarrow> string list \<Rightarrow> py_error + string list" where
  "check_year cy data partial errors =
     (case field_selected partial ''year'' data of
        Inl e \<Rightarrow> Inl e
      | Inr False \<Rightarrow> Inr errors
      | Inr True \<Rightarrow>
          (case py_get data ''year'' JNull of
             Inl e \<Rightarrow> Inl e
           | Inr v \<Rightarrow>
               if v \<noteq> JNull then
                 (case py_getitem data ''year'' of
                    Inl e \<Rightarrow> Inl e
                  | Inr w \<Rightarrow>
                      (case py_int w of
                         Inl ValueError \<Rightarrow> Inr (errors @ [''Year must be a valid integer''])
                       | Inl TypeError \<Rightarrow> Inr (errors @ [''Year must be a valid integer''])
                       | Inl e \<Rightarrow> Inl e
                       | Inr year \<Rightarrow>
                           if year < 0 \<or> year > cy then Inr (errors @ [range_message cy])
                           else Inr errors))
               else if \<not> partial then Inr (errors @ [''Year is required''])
               else Inr errors))"

definition check_isbn :: "json \<Rightarrow> bool \<Rightarrow> string list \<Rightarrow> py_error + string list" where
  "check_isbn data partial errors =
     (case field_selected partial ''isbn'' data of
        Inl e \<Rightarrow> Inl e
      | Inr False \<Rightarrow> Inr errors
      | Inr True \<Rightarrow>
          (case py_get data ''isbn'' JNull of
             Inl e \<Rightarrow> Inl e
           | Inr v \<Rightarrow>
               if \<not> truthy v \<and> \<not> partial then Inr (errors @ [''ISBN is required''])
               else Inr errors))"

definition validate_book_data :: "int \<Rightarrow> json \<Rightarrow> bool \<Rightarrow> py_error + string list" where
  "validate_book_data cy data partial =
     (case check_title data partial [] of
        Inl e \<Rightarrow> Inl e
      | Inr e1 \<Rightarrow>
          (case check_author data partial e1 of
             Inl e \<Rightarrow> Inl e
           | Inr e2 \<Rightarrow>
               (case check_year cy data partial e2 of
                  Inl e \<Rightarrow> Inl e
                | Inr e3 \<Rightarrow> check_isbn data partial e3)))"

subsection \<open>The Book table and the storage engine\<close>

text \<open>
  \<^verbatim>\<open>class Book(db.Model)\<close>, lines 65 to 81: the columns have the declared types,
  \<^verbatim>\<open>String(200)\<close>, \<^verbatim>\<open>String(100)\<close>, \<^verbatim>\<open>Integer\<close> and \<^verbatim>\<open>String(20)\<close>. \<open>created_at\<close> is a
  point in time, filled by the column default.
\<close>

record Book =
  bid :: nat
  title :: string
  author :: string
  year :: int
  isbn :: string
  created_at :: nat

text \<open>
  The table, the sequence that numbers new rows, and one fact about the server:
  PostgreSQL reads underscores between the digits of an integer from version 16 on, and
  \<open>reads_underscores\<close> says whether this server does. The list \<open>rows\<close> holds the rows in
  the order in which the engine scans them, which is the order of their last write: a new
  row comes last, and so does the new version of an updated row. No query of the service
  orders its result, and no property below depends on the order.
\<close>

record store =
  rows :: "Book list"
  next_id :: nat
  reads_underscores :: bool

text \<open>
  The handlers hand the decoded values of the body to the engine as they are; the engine
  (PostgreSQL behind the default driver of the URL in line 16) converts each to the
  column's type or rejects it.

  A \<^verbatim>\<open>String(n)\<close> column takes a string without the character NUL: as it is when it
  has at most \<open>n\<close> characters, cut to \<open>n\<close> when all the characters beyond are spaces,
  and not otherwise. The handlers never give it anything but a string.
\<close>

definition storable :: "nat \<Rightarrow> string \<Rightarrow> bool" where
  "storable n s = (length s \<le> n \<and> list_all (\<lambda>c. of_char c \<noteq> (0::nat)) s)"

definition text_column :: "nat \<Rightarrow> json \<Rightarrow> string option" where
  "text_column n v =
     (case v of
        JStr s \<Rightarrow>
          if \<not> list_all (\<lambda>c. of_char c \<noteq> (0::nat)) s then None
          else if length s \<le> n then Some s
          else if list_all (\<lambda>c. c = CHR '' '') (drop n s) then Some (take n s)
          else None
      | _ \<Rightarrow> None)"

text \<open>
  The \<^verbatim>\<open>Integer\<close> column takes an integer of 32 bits as it is; a float arrives as a
  decimal literal and is rounded to the nearest integer, halves away from zero; a
  string is read as an integer: whitespace around it, a sign, digits (with underscores
  where the server reads them); a boolean is rejected, and so is null.
\<close>

definition in_int4 :: "int \<Rightarrow> bool" where
  "in_int4 n = (- 2147483648 \<le> n \<and> n \<le> 2147483647)"

definition round_half_away :: "rat \<Rightarrow> int" where
  "round_half_away q = (if 0 \<le> q then \<lfloor>q + 1 / 2\<rfloor> else - \<lfloor>- q + 1 / 2\<rfloor>)"

definition is_sql_space :: "char \<Rightarrow> bool" where
  "is_sql_space c = (let n = of_char c :: nat in (9 \<le> n \<and> n \<le> 13) \<or> n = 32)"

fun parse_plain :: "nat \<Rightarrow> string \<Rightarrow> nat option" where
  "parse_plain acc [] = Some acc"
| "parse_plain acc (c # cs) =
     (if is_digit c then parse_plain (10 * acc + digit_val c) cs else None)"

definition sql_unsigned :: "bool \<Rightarrow> string \<Rightarrow> nat option" where
  "sql_unsigned us s =
     (case s of
        [] \<Rightarrow> None
      | c # cs \<Rightarrow>
          if \<not> is_digit c then None
          else if us then parse_dec (digit_val c) cs
          else parse_plain (digit_val c) cs)"

definition sql_int_of_string :: "bool \<Rightarrow> string \<Rightarrow> int option" where
  "sql_int_of_string us s =
     (case rev (dropWhile is_sql_space (rev (dropWhile is_sql_space s))) of
        [] \<Rightarrow> None
      | c # cs \<Rightarrow>
          if c = CHR ''-'' then map_option (\<lambda>n. - int n) (sql_unsigned us cs)
          else if c = CHR ''+'' then map_option int (sql_unsigned us cs)
          else map_option int (sql_unsigned us (c # cs)))"

definition checked_int4 :: "int \<Rightarrow> int option" where
  "checked_int4 n = (if in_int4 n then Some n else None)"

fun integer_column :: "bool \<Rightarrow> json \<Rightarrow> int option" where
  "integer_column us (JInt n) = checked_int4 n"
| "integer_column us (JFloat (Finite q)) = checked_int4 (round_half_away q)"
| "integer_column us (JStr s) =
     (case sql_int_of_string us s of None \<Rightarrow> None | Some n \<Rightarrow> checked_int4 n)"
| "integer_column us _ = None"

text \<open>
  The isbn that a query compares the column with: a string without NUL is compared as it
  is; with anything else the comparison raises (there is no equality between the
  column's type and a number, a boolean or an array).
\<close>

fun lookup_text :: "json \<Rightarrow> string option" where
  "lookup_text (JStr s) = (if list_all (\<lambda>c. of_char c \<noteq> (0::nat)) s then Some s else None)"
| "lookup_text _ = None"

text \<open>
  The unit of work writes a column of a loaded row only when the assigned value differs
  from the loaded one, compared with Python's \<^verbatim>\<open>==\<close>: so \<^verbatim>\<open>1965.0\<close> and a loaded 1965
  are no change, nor are \<^verbatim>\<open>true\<close> and a loaded 1.
\<close>

fun py_eq_int :: "json \<Rightarrow> int \<Rightarrow> bool" where
  "py_eq_int (JInt n) old = (n = old)"
| "py_eq_int (JBool b) old = ((if b then 1 else 0) = old)"
| "py_eq_int (JFloat (Finite q)) old = (q = of_int old)"
| "py_eq_int _ old = False"

definition assign_text :: "nat \<Rightarrow> json \<Rightarrow> string \<Rightarrow> string option" where
  "assign_text n v old = (if v = JStr old then Some old else text_column n v)"

definition assign_integer :: "bool \<Rightarrow> json \<Rightarrow> int \<Rightarrow> int option" where
  "assign_integer us v old = (if py_eq_int v old then Some old else integer_column us v)"

text \<open>
  What a session has pending: the new object of \<^verbatim>\<open>db.session.add\<close> with the values of
  its constructor (and the time, for the default of \<open>created_at\<close>), the assignments to a
  loaded object, a deletion. \<open>flush\<close> is the engine executing one of them: it answers
  whether it accepted, and the table after. The insert first converts the values, then
  draws the id from the sequence, then checks that the isbn is unique: a violation of
  uniqueness leaves the id drawn. Assignments that change no attribute send no statement.
\<close>

datatype pending =
    Insert nat json json json json
  | Update nat json json json json
  | Delete nat

definition new_row :: "store \<Rightarrow> nat \<Rightarrow> json \<Rightarrow> json \<Rightarrow> json \<Rightarrow> json \<Rightarrow> Book option" where
  "new_row st now t a y i =
     (case text_column 200 t of None \<Rightarrow> None | Some t' \<Rightarrow>
      case text_column 100 a of None \<Rightarrow> None | Some a' \<Rightarrow>
      case integer_column (reads_underscores st) y of None \<Rightarrow> None | Some y' \<Rightarrow>
      case text_column 20 i of None \<Rightarrow> None | Some i' \<Rightarrow>
        Some \<lparr>bid = next_id st, title = t', author = a', year = y', isbn = i',
              created_at = now\<rparr>)"

definition updated_row :: "store \<Rightarrow> Book \<Rightarrow> json \<Rightarrow> json \<Rightarrow> json \<Rightarrow> json \<Rightarrow> Book option" where
  "updated_row st old t a y i =
     (case assign_text 200 t (title old) of None \<Rightarrow> None | Some t' \<Rightarrow>
      case assign_text 100 a (author old) of None \<Rightarrow> None | Some a' \<Rightarrow>
      case assign_integer (reads_underscores st) y (year old) of None \<Rightarrow> None | Some y' \<Rightarrow>
      case assign_text 20 i (isbn old) of None \<Rightarrow> None | Some i' \<Rightarrow>
        Some (old\<lparr>title := t', author := a', year := y', isbn := i'\<rparr>))"

definition no_change :: "Book \<Rightarrow> json \<Rightarrow> json \<Rightarrow> json \<Rightarrow> json \<Rightarrow> bool" where
  "no_change old t a y i =
     (t = JStr (title old) \<and> a = JStr (author old) \<and> py_eq_int y (year old)
      \<and> i = JStr (isbn old))"

fun flush :: "store \<Rightarrow> pending \<Rightarrow> bool \<times> store" where
  "flush st (Insert now t a y i) =
     (case new_row st now t a y i of
        None \<Rightarrow> (False, st)
      | Some r \<Rightarrow>
          if list_ex (\<lambda>b. isbn b = isbn r) (rows st)
          then (False, st\<lparr>next_id := Suc (next_id st)\<rparr>)
          else (True, st\<lparr>rows := rows st @ [r], next_id := Suc (next_id st)\<rparr>))"
| "flush st (Update k t a y i) =
     (case find (\<lambda>b. bid b = k) (rows st) of
        None \<Rightarrow> (False, st)
      | Some old \<Rightarrow>
          if no_change old t a y i then (True, st)
          else (case updated_row st old t a y i of
                  None \<Rightarrow> (False, st)
                | Some r \<Rightarrow>
                    if list_ex (\<lambda>b. bid b \<noteq> k \<and> isbn b = isbn r) (rows st) then (False, st)
                    else (True, st\<lparr>rows := filter (\<lambda>b. bid b \<noteq> k) (rows st) @ [r]\<rparr>)))"
| "flush st (Delete k) = (True, st\<lparr>rows := filter (\<lambda>b. bid b \<noteq> k) (rows st)\<rparr>)"

fun flush_all :: "store \<Rightarrow> pending list \<Rightarrow> bool \<times> store" where
  "flush_all st [] = (True, st)"
| "flush_all st (p # ps) =
     (case flush st p of
        (True, st') \<Rightarrow> flush_all st' ps
      | (False, st') \<Rightarrow> (False, st'))"

text \<open>
  The session of a request. \<^verbatim>\<open>commit\<close> flushes what is pending in one transaction: if
  the engine rejects anything, or the commit itself fails, the rows stay as they were
  (the sequence keeps what it has drawn). \<^verbatim>\<open>rollback\<close> drops what is pending.

  The calls that reach the database may fail for reasons of their own (the server is
  unreachable): \<open>raises c\<close> says that call \<open>c\<close> of the request does. The session expires
  every loaded instance at commit, so the first attribute read after
  \<^verbatim>\<open>db.session.commit()\<close> (\<^verbatim>\<open>book.title\<close> in line 173, \<^verbatim>\<open>book.to_dict()\<close> in line 249)
  loads the row again: this is the call \<open>Refresh\<close>.
\<close>

record session =
  persisted :: store
  pending :: "pending list"

datatype store_call = QueryAll | QueryGet | QueryFilter | Commit | Refresh

definition no_failure :: "store_call \<Rightarrow> bool" where
  "no_failure c = False"

definition begin_session :: "store \<Rightarrow> session" where
  "begin_session st = \<lparr>persisted = st, pending = []\<rparr>"

definition query_all :: "(store_call \<Rightarrow> bool) \<Rightarrow> session \<Rightarrow> py_error + Book list" where
  "query_all raises s =
     (if raises QueryAll then Inl SQLAlchemyError else Inr (rows (persisted s)))"

definition query_get :: "(store_call \<Rightarrow> bool) \<Rightarrow> session \<Rightarrow> nat \<Rightarrow> py_error + Book option" where
  "query_get raises s k =
     (if raises QueryGet then Inl SQLAlchemyError
      else Inr (find (\<lambda>b. bid b = k) (rows (persisted s))))"

definition query_filter_by_isbn ::
  "(store_call \<Rightarrow> bool) \<Rightarrow> session \<Rightarrow> json \<Rightarrow> py_error + Book option" where
  "query_filter_by_isbn raises s v =
     (if raises QueryFilter then Inl SQLAlchemyError
      else case lookup_text v of
        None \<Rightarrow> Inl SQLAlchemyError
      | Some q \<Rightarrow> Inr (find (\<lambda>b. isbn b = q) (rows (persisted s))))"

definition query_filter_isbn_other ::
  "(store_call \<Rightarrow> bool) \<Rightarrow> session \<Rightarrow> json \<Rightarrow> nat \<Rightarrow> py_error + Book option" where
  "query_filter_isbn_other raises s v k =
     (if raises QueryFilter then Inl SQLAlchemyError
      else case lookup_text v of
        None \<Rightarrow> Inl SQLAlchemyError
      | Some q \<Rightarrow> Inr (find (\<lambda>b. isbn b = q \<and> bid b \<noteq> k) (rows (persisted s))))"

definition session_add :: "nat \<Rightarrow> session \<Rightarrow> json \<Rightarrow> json \<Rightarrow> json \<Rightarrow> json \<Rightarrow> session" where
  "session_add now s t a y i = s\<lparr>pending := pending s @ [Insert now t a y i]\<rparr>"

definition session_assign :: "session \<Rightarrow> nat \<Rightarrow> json \<Rightarrow> json \<Rightarrow> json \<Rightarrow> json \<Rightarrow> session" where
  "session_assign s k t a y i = s\<lparr>pending := pending s @ [Update k t a y i]\<rparr>"

definition session_delete :: "session \<Rightarrow> nat \<Rightarrow> session" where
  "session_delete s k = s\<lparr>pending := pending s @ [Delete k]\<rparr>"

definition session_commit :: "(store_call \<Rightarrow> bool) \<Rightarrow> session \<Rightarrow> (py_error + unit) \<times> session" where
  "session_commit raises s =
     (if raises Commit then (Inl SQLAlchemyError, s)
      else case flush_all (persisted s) (pending s) of
        (True, st') \<Rightarrow> (Inr (), \<lparr>persisted = st', pending = []\<rparr>)
      | (False, st') \<Rightarrow>
          (Inl SQLAlchemyError, s\<lparr>persisted := (persisted s)\<lparr>next_id := next_id st'\<rparr>\<rparr>))"

definition session_rollback :: "session \<Rightarrow> session" where
  "session_rollback s = s\<lparr>pending := []\<rparr>"

definition refresh :: "(store_call \<Rightarrow> bool) \<Rightarrow> session \<Rightarrow> nat \<Rightarrow> py_error + Book" where
  "refresh raises s k =
     (if raises Refresh then Inl SQLAlchemyError
      else (case find (\<lambda>b. bid b = k) (rows (persisted s)) of
              None \<Rightarrow> Inl SQLAlchemyError
            | Some b \<Rightarrow> Inr b))"

subsection \<open>Responses\<close>

text \<open>
  A handler returns a body and a status code. A Book in a body stands for the dict that
  \<^verbatim>\<open>to_dict\<close> renders from its six columns. The listing carries the Books in the order
  of the query's result, and their number.
\<close>

datatype body =
    BooksTotal "Book list" nat
  | BookOnly Book
  | MessageOnly string
  | MessageBook string Book
  | Error string
  | Errors "string list"

type_synonym response = "body \<times> nat"

text \<open>
  The frame shared by the three writing handlers: the body of \<^verbatim>\<open>try\<close> runs in a fresh
  session; \<^verbatim>\<open>except Exception\<close> rolls the session back and answers 500. The table after
  the request is what the session has committed.
\<close>

definition run_request :: "(session \<Rightarrow> (py_error + response) \<times> session) \<Rightarrow> store \<Rightarrow> response \<times> store" where
  "run_request try_body st =
     (case try_body (begin_session st) of
        (Inr resp, s) \<Rightarrow> (resp, persisted s)
      | (Inl e, s) \<Rightarrow> ((Error ''Internal server error'', 500), persisted (session_rollback s)))"

subsection \<open>The handlers\<close>

text \<open>\<^verbatim>\<open>BookList.get\<close>, lines 126 to 137.\<close>

definition BookList_get :: "(store_call \<Rightarrow> bool) \<Rightarrow> store \<Rightarrow> response" where
  "BookList_get raises st =
     (case query_all raises (begin_session st) of
        Inl e \<Rightarrow> (Error ''Internal server error'', 500)
      | Inr books \<Rightarrow> (BooksTotal books (length books), 200))"

text \<open>\<^verbatim>\<open>BookList.post\<close>, lines 145 to 182: the body of \<^verbatim>\<open>try\<close>, then the handler. The id
  of the new object is the one the insert draws from the sequence.\<close>

definition post_try ::
  "int \<Rightarrow> nat \<Rightarrow> (store_call \<Rightarrow> bool) \<Rightarrow> json \<Rightarrow> session \<Rightarrow> (py_error + response) \<times> session" where
  "post_try cy now raises data s =
     (if \<not> truthy data then (Inr (Error ''No JSON data provided'', 400), s)
      else case validate_book_data cy data False of
        Inl e \<Rightarrow> (Inl e, s)
      | Inr errors \<Rightarrow>
          if errors \<noteq> [] then (Inr (Errors errors, 400), s)
          else case py_getitem data ''isbn'' of
            Inl e \<Rightarrow> (Inl e, s)
          | Inr q \<Rightarrow>
              (case query_filter_by_isbn raises s q of
                 Inl e \<Rightarrow> (Inl e, s)
               | Inr (Some existing) \<Rightarrow>
                   (Inr (Error ''Book with this ISBN already exists'', 409), s)
               | Inr None \<Rightarrow>
                   (case py_getitem data ''title'' of
                      Inl e \<Rightarrow> (Inl e, s)
                    | Inr t \<Rightarrow>
                   (case py_getitem data ''author'' of
                      Inl e \<Rightarrow> (Inl e, s)
                    | Inr a \<Rightarrow>
                   (case py_getitem data ''year'' of
                      Inl e \<Rightarrow> (Inl e, s)
                    | Inr y \<Rightarrow>
                   (case py_getitem data ''isbn'' of
                      Inl e \<Rightarrow> (Inl e, s)
                    | Inr i \<Rightarrow>
                        (let new_id = next_id (persisted s);
                             s1 = session_add now s t a y i
                         in case session_commit raises s1 of
                              (Inl e, s2) \<Rightarrow> (Inl e, s2)
                            | (Inr u, s2) \<Rightarrow>
                                (case refresh raises s2 new_id of
                                   Inl e \<Rightarrow> (Inl e, s2)
                                 | Inr book \<Rightarrow>
                                     (Inr (MessageBook ''Book created successfully'' book, 201),
                                      s2)))))))))"

definition BookList_post ::
  "int \<Rightarrow> nat \<Rightarrow> (store_call \<Rightarrow> bool) \<Rightarrow> store \<Rightarrow> json \<Rightarrow> response \<times> store" where
  "BookList_post cy now raises st data = run_request (post_try cy now raises data) st"

text \<open>\<^verbatim>\<open>BookResource.get\<close>, lines 192 to 204.\<close>

definition BookResource_get :: "(store_call \<Rightarrow> bool) \<Rightarrow> store \<Rightarrow> nat \<Rightarrow> response" where
  "BookResource_get raises st book_id =
     (case query_get raises (begin_session st) book_id of
        Inl e \<Rightarrow> (Error ''Internal server error'', 500)
      | Inr None \<Rightarrow> (Error ''Book not found'', 404)
      | Inr (Some book) \<Rightarrow> (BookOnly book, 200))"

text \<open>\<^verbatim>\<open>BookResource.put\<close>, lines 212 to 255.\<close>

definition put_try ::
  "int \<Rightarrow> (store_call \<Rightarrow> bool) \<Rightarrow> nat \<Rightarrow> json \<Rightarrow> session \<Rightarrow> (py_error + response) \<times> session" where
  "put_try cy raises book_id data s =
     (if \<not> truthy data then (Inr (Error ''No JSON data provided'', 400), s)
      else case query_get raises s book_id of
        Inl e \<Rightarrow> (Inl e, s)
      | Inr None \<Rightarrow> (Inr (Error ''Book not found'', 404), s)
      | Inr (Some book) \<Rightarrow>
          (case validate_book_data cy data False of
             Inl e \<Rightarrow> (Inl e, s)
           | Inr errors \<Rightarrow>
               if errors \<noteq> [] then (Inr (Errors errors, 400), s)
               else case py_getitem data ''isbn'' of
                 Inl e \<Rightarrow> (Inl e, s)
               | Inr q \<Rightarrow>
                   (case query_filter_isbn_other raises s q book_id of
                      Inl e \<Rightarrow> (Inl e, s)
                    | Inr (Some existing_book) \<Rightarrow>
                        (Inr (Error ''Another book with this ISBN already exists'', 409), s)
                    | Inr None \<Rightarrow>
                        (case py_getitem data ''title'' of
                           Inl e \<Rightarrow> (Inl e, s)
                         | Inr t \<Rightarrow>
                        (case py_getitem data ''author'' of
                           Inl e \<Rightarrow> (Inl e, s)
                         | Inr a \<Rightarrow>
                        (case py_getitem data ''year'' of
                           Inl e \<Rightarrow> (Inl e, s)
                         | Inr y \<Rightarrow>
                        (case py_getitem data ''isbn'' of
                           Inl e \<Rightarrow> (Inl e, s)
                         | Inr i \<Rightarrow>
                             (let s1 = session_assign s (bid book) t a y i in
                              case session_commit raises s1 of
                                (Inl e, s2) \<Rightarrow> (Inl e, s2)
                              | (Inr u, s2) \<Rightarrow>
                                  (case refresh raises s2 (bid book) of
                                     Inl e \<Rightarrow> (Inl e, s2)
                                   | Inr updated \<Rightarrow>
                                       (Inr (MessageBook ''Book updated successfully'' updated, 200),
                                        s2))))))))))"

definition BookResource_put ::
  "int \<Rightarrow> (store_call \<Rightarrow> bool) \<Rightarrow> store \<Rightarrow> nat \<Rightarrow> json \<Rightarrow> response \<times> store" where
  "BookResource_put cy raises st book_id data = run_request (put_try cy raises book_id data) st"

text \<open>\<^verbatim>\<open>BookResource.delete\<close>, lines 260 to 277.\<close>

definition delete_try ::
  "(store_call \<Rightarrow> bool) \<Rightarrow> nat \<Rightarrow> session \<Rightarrow> (py_error + response) \<times> session" where
  "delete_try raises book_id s =
     (case query_get raises s book_id of
        Inl e \<Rightarrow> (Inl e, s)
      | Inr None \<Rightarrow> (Inr (Error ''Book not found'', 404), s)
      | Inr (Some book) \<Rightarrow>
          (let s1 = session_delete s (bid book) in
           case session_commit raises s1 of
             (Inl e, s2) \<Rightarrow> (Inl e, s2)
           | (Inr u, s2) \<Rightarrow> (Inr (MessageOnly ''Book deleted successfully'', 200), s2)))"

definition BookResource_delete ::
  "(store_call \<Rightarrow> bool) \<Rightarrow> store \<Rightarrow> nat \<Rightarrow> response \<times> store" where
  "BookResource_delete raises st book_id = run_request (delete_try raises book_id) st"

subsection \<open>Well-formed tables\<close>

text \<open>
  What the primary key, the sequence, the unique constraint and the column types keep
  true of the table: ids are distinct and below the sequence's next value, no two rows
  share an isbn, and every text is one its column stores.
\<close>

definition wf_store :: "store \<Rightarrow> bool" where
  "wf_store st =
     (distinct (map bid (rows st)) \<and> list_all (\<lambda>b. bid b < next_id st) (rows st)
      \<and> distinct (map isbn (rows st))
      \<and> list_all (\<lambda>b. storable 200 (title b) \<and> storable 100 (author b) \<and> storable 20 (isbn b))
           (rows st))"

definition empty_store :: store where
  "empty_store = \<lparr>rows = [], next_id = 1, reads_underscores = False\<rparr>"

subsection \<open>Vocabulary for the properties\<close>

text \<open>The payload cut down to one of its fields (an absent field reads as null).\<close>

definition only_field :: "string \<Rightarrow> (string \<times> json) list \<Rightarrow> json" where
  "only_field k kvs = JObj [(k, dict_get kvs k JNull)]"

text \<open>The three messages of the year block, and the three "required" messages of the
  other blocks.\<close>

definition year_messages :: "int \<Rightarrow> string set" where
  "year_messages cy =
     {''Year is required'', ''Year must be a valid integer'', range_message cy}"

definition required_messages :: "string set" where
  "required_messages = {''Title is required'', ''Author is required'', ''ISBN is required''}"

text \<open>What the title and author blocks accept, and what the year block accepts.\<close>

definition nonblank_text :: "json \<Rightarrow> bool" where
  "nonblank_text v = (case v of JStr s \<Rightarrow> strip s \<noteq> [] | _ \<Rightarrow> False)"

definition is_text :: "json \<Rightarrow> bool" where
  "is_text v = (case v of JStr s \<Rightarrow> True | _ \<Rightarrow> False)"

definition year_accepted :: "int \<Rightarrow> json \<Rightarrow> bool" where
  "year_accepted cy v =
     (v \<noteq> JNull \<and> (case py_int v of Inl e \<Rightarrow> False | Inr n \<Rightarrow> 0 \<le> n \<and> n \<le> cy))"

text \<open>
  Validity of a payload in the words of the specification's validator rules: title and
  author are in error when absent, empty or whitespace-only; year must be present and
  parse as an integer in the range; isbn must be present, with no check beyond presence.
  A field is absent when the payload has no such key or holds null for it.
\<close>

definition spec_absent :: "(string \<times> json) list \<Rightarrow> string \<Rightarrow> bool" where
  "spec_absent kvs k = (map_of kvs k = None \<or> map_of kvs k = Some JNull)"

definition spec_empty_or_whitespace :: "(string \<times> json) list \<Rightarrow> string \<Rightarrow> bool" where
  "spec_empty_or_whitespace kvs k =
     (case map_of kvs k of Some (JStr s) \<Rightarrow> list_all is_space s | _ \<Rightarrow> False)"

definition spec_year_parses_in_range :: "int \<Rightarrow> (string \<times> json) list \<Rightarrow> bool" where
  "spec_year_parses_in_range cy kvs =
     (case map_of kvs ''year'' of
        None \<Rightarrow> False
      | Some v \<Rightarrow> (case py_int v of Inl e \<Rightarrow> False | Inr n \<Rightarrow> 0 \<le> n \<and> n \<le> cy))"

definition spec_fully_valid :: "int \<Rightarrow> (string \<times> json) list \<Rightarrow> bool" where
  "spec_fully_valid cy kvs =
     (\<not> (spec_absent kvs ''title'' \<or> spec_empty_or_whitespace kvs ''title'')
      \<and> \<not> (spec_absent kvs ''author'' \<or> spec_empty_or_whitespace kvs ''author'')
      \<and> \<not> spec_absent kvs ''year'' \<and> spec_year_parses_in_range cy kvs
      \<and> \<not> spec_absent kvs ''isbn'')"

text \<open>
  A payload fits the columns when its title, author and isbn are strings that their
  columns store as they are (at most 200, 100 and 20 characters, none of them NUL) and
  its year is an integer of 32 bits.
\<close>

definition fits_text :: "nat \<Rightarrow> json \<Rightarrow> bool" where
  "fits_text n v = (case v of JStr s \<Rightarrow> storable n s | _ \<Rightarrow> False)"

definition fits_integer :: "json \<Rightarrow> bool" where
  "fits_integer v = (case v of JInt n \<Rightarrow> in_int4 n | _ \<Rightarrow> False)"

definition fits_columns :: "(string \<times> json) list \<Rightarrow> bool" where
  "fits_columns kvs =
     (fits_text 200 (dict_get kvs ''title'' JNull) \<and> fits_text 100 (dict_get kvs ''author'' JNull)
      \<and> fits_integer (dict_get kvs ''year'' JNull) \<and> fits_text 20 (dict_get kvs ''isbn'' JNull))"

text \<open>
  The engine takes the values of a payload for a row, converting them where it must.
\<close>

definition columns_take :: "store \<Rightarrow> (string \<times> json) list \<Rightarrow> bool" where
  "columns_take st kvs =
     (text_column 200 (dict_get kvs ''title'' JNull) \<noteq> None
      \<and> text_column 100 (dict_get kvs ''author'' JNull) \<noteq> None
      \<and> integer_column (reads_underscores st) (dict_get kvs ''year'' JNull) \<noteq> None
      \<and> text_column 20 (dict_get kvs ''isbn'' JNull) \<noteq> None)"

text \<open>The row that a successful create stores for a payload that fits the columns, and
  the row that a successful update leaves in place of \<open>b\<close>.\<close>

definition payload_text :: "(string \<times> json) list \<Rightarrow> string \<Rightarrow> string" where
  "payload_text kvs k = (case dict_get kvs k JNull of JStr s \<Rightarrow> s | _ \<Rightarrow> [])"

definition payload_int :: "(string \<times> json) list \<Rightarrow> string \<Rightarrow> int" where
  "payload_int kvs k = (case dict_get kvs k JNull of JInt n \<Rightarrow> n | _ \<Rightarrow> 0)"

definition book_of_payload :: "nat \<Rightarrow> nat \<Rightarrow> (string \<times> json) list \<Rightarrow> Book" where
  "book_of_payload k now kvs =
     \<lparr>bid = k, title = payload_text kvs ''title'', author = payload_text kvs ''author'',
      year = payload_int kvs ''year'', isbn = payload_text kvs ''isbn'', created_at = now\<rparr>"

definition replace_fields :: "Book \<Rightarrow> (string \<times> json) list \<Rightarrow> Book" where
  "replace_fields b kvs =
     b\<lparr>title := payload_text kvs ''title'', author := payload_text kvs ''author'',
       year := payload_int kvs ''year'', isbn := payload_text kvs ''isbn''\<rparr>"

text \<open>The payloads and the tables of the examples: the specification's Dune, a second
  Book, Dune with a title of 201 characters, Dune with the year \<^verbatim>\<open>true\<close>, and Dune with
  eight spaces after its isbn, which makes 21 characters.\<close>

definition dune :: "(string \<times> json) list" where
  "dune = [(''title'', JStr ''Dune''), (''author'', JStr ''Herbert''),
           (''year'', JInt 1965), (''isbn'', JStr ''9780441013593'')]"

definition dune_store :: store where
  "dune_store = \<lparr>rows = [book_of_payload 1 7 dune], next_id = 2, reads_underscores = False\<rparr>"

definition emma :: "(string \<times> json) list" where
  "emma = [(''title'', JStr ''Emma''), (''author'', JStr ''Austen''),
           (''year'', JInt 1815), (''isbn'', JStr ''9780141439587'')]"

definition two_books_store :: store where
  "two_books_store =
     \<lparr>rows = [book_of_payload 1 7 dune, book_of_payload 2 8 emma], next_id = 3,
      reads_underscores = False\<rparr>"

definition dune_long_title :: "(string \<times> json) list" where
  "dune_long_title =
     [(''title'', JStr (replicate 201 (CHR ''D''))), (''author'', JStr ''Herbert''),
      (''year'', JInt 1965), (''isbn'', JStr ''9780441013593'')]"


definition dune_padded_isbn :: "(string \<times> json) list" where
  "dune_padded_isbn =
     [(''title'', JStr ''Dune''), (''author'', JStr ''Herbert''),
      (''year'', JInt 1965), (''isbn'', JStr ''9780441013593        '')]"

text \<open>A request during which the store is reachable up to and including the commit and
  fails at the reload after it.\<close>

definition reload_fails :: "store_call \<Rightarrow> bool" where
  "reload_fails c = (c = Refresh)"

section \<open>Properties of the validator\<close>

lemma field_selected_False [simp]: "field_selected False k data = Inr True"
  by (simp add: field_selected_def)

lemma dict_get_truthy_default:
  "truthy (dict_get kvs k JNull) \<Longrightarrow> dict_get kvs k d = dict_get kvs k JNull"
  by (cases "map_of kvs k") (simp_all add: dict_get_def)

lemma check_title_obj:
  "check_title (JObj kvs) False errs =
     (case dict_get kvs ''title'' JNull of
        JStr s \<Rightarrow> if strip s = [] then Inr (errs @ [''Title is required'']) else Inr errs
      | v \<Rightarrow> if truthy v then Inl AttributeError else Inr (errs @ [''Title is required'']))"
proof (cases "truthy (dict_get kvs ''title'' JNull)")
  case True
  then show ?thesis
    by (cases "dict_get kvs ''title'' JNull")
       (simp_all add: check_title_def dict_get_truthy_default [OF True, of "JStr []"])
next
  case False
  then show ?thesis
    by (cases "dict_get kvs ''title'' JNull") (auto simp: check_title_def strip_def)
qed

lemma check_author_obj:
  "check_author (JObj kvs) False errs =
     (case dict_get kvs ''author'' JNull of
        JStr s \<Rightarrow> if strip s = [] then Inr (errs @ [''Author is required'']) else Inr errs
      | v \<Rightarrow> if truthy v then Inl AttributeError else Inr (errs @ [''Author is required'']))"
proof (cases "truthy (dict_get kvs ''author'' JNull)")
  case True
  then show ?thesis
    by (cases "dict_get kvs ''author'' JNull")
       (simp_all add: check_author_def dict_get_truthy_default [OF True, of "JStr []"])
next
  case False
  then show ?thesis
    by (cases "dict_get kvs ''author'' JNull") (auto simp: check_author_def strip_def)
qed

lemma check_year_obj:
  "check_year cy (JObj kvs) False errs =
     (if dict_get kvs ''year'' JNull = JNull then Inr (errs @ [''Year is required''])
      else case py_int (dict_get kvs ''year'' JNull) of
             Inl ValueError \<Rightarrow> Inr (errs @ [''Year must be a valid integer''])
           | Inl TypeError \<Rightarrow> Inr (errs @ [''Year must be a valid integer''])
           | Inl e \<Rightarrow> Inl e
           | Inr n \<Rightarrow> if n < 0 \<or> cy < n then Inr (errs @ [range_message cy]) else Inr errs)"
proof (cases "map_of kvs ''year''")
  case None
  then show ?thesis by (simp add: check_year_def dict_get_def)
next
  case (Some v)
  then show ?thesis by (simp add: check_year_def dict_get_def)
qed

lemma check_isbn_obj:
  "check_isbn (JObj kvs) False errs =
     (if truthy (dict_get kvs ''isbn'' JNull) then Inr errs
      else Inr (errs @ [''ISBN is required'']))"
  by (simp add: check_isbn_def)

lemma dict_get_only_field [simp]:
  "dict_get [(k, dict_get kvs k JNull)] k JNull = dict_get kvs k JNull"
  by (simp add: dict_get_def)

lemma check_title_only:
  "check_title (only_field ''title'' kvs) False errs = check_title (JObj kvs) False errs"
  by (simp add: only_field_def check_title_obj)

lemma check_author_only:
  "check_author (only_field ''author'' kvs) False errs = check_author (JObj kvs) False errs"
  by (simp add: only_field_def check_author_obj)

lemma check_year_only:
  "check_year cy (only_field ''year'' kvs) False errs = check_year cy (JObj kvs) False errs"
  by (simp add: only_field_def check_year_obj)

lemma check_isbn_only:
  "check_isbn (only_field ''isbn'' kvs) False errs = check_isbn (JObj kvs) False errs"
  by (simp add: only_field_def check_isbn_obj)

lemma title_block_result:
  "check_title (JObj kvs) False errs = Inr r \<Longrightarrow>
   r = errs @ (if nonblank_text (dict_get kvs ''title'' JNull) then [] else [''Title is required''])"
  by (cases "dict_get kvs ''title'' JNull")
     (auto simp: check_title_obj nonblank_text_def split: if_splits)

lemma author_block_result:
  "check_author (JObj kvs) False errs = Inr r \<Longrightarrow>
   r = errs @ (if nonblank_text (dict_get kvs ''author'' JNull) then [] else [''Author is required''])"
  by (cases "dict_get kvs ''author'' JNull")
     (auto simp: check_author_obj nonblank_text_def split: if_splits)

lemma year_block_result:
  "check_year cy (JObj kvs) False errs = Inr r \<Longrightarrow>
   \<exists>y. r = errs @ y \<and> set y \<subseteq> year_messages cy
      \<and> (y = []) = year_accepted cy (dict_get kvs ''year'' JNull)"
  by (auto simp: check_year_obj year_accepted_def year_messages_def
           split: if_splits sum.splits py_error.splits)

lemma isbn_block_result:
  "check_isbn (JObj kvs) False errs = Inr r \<Longrightarrow>
   r = errs @ (if truthy (dict_get kvs ''isbn'' JNull) then [] else [''ISBN is required''])"
  by (auto simp: check_isbn_obj split: if_splits)

lemma title_block_acc:
  "check_title (JObj kvs) False errs =
     (case check_title (JObj kvs) False [] of Inl e \<Rightarrow> Inl e | Inr t \<Rightarrow> Inr (errs @ t))"
  by (cases "dict_get kvs ''title'' JNull") (simp_all add: check_title_obj)

lemma author_block_acc:
  "check_author (JObj kvs) False errs =
     (case check_author (JObj kvs) False [] of Inl e \<Rightarrow> Inl e | Inr t \<Rightarrow> Inr (errs @ t))"
  by (cases "dict_get kvs ''author'' JNull") (simp_all add: check_author_obj)

lemma year_block_acc:
  "check_year cy (JObj kvs) False errs =
     (case check_year cy (JObj kvs) False [] of Inl e \<Rightarrow> Inl e | Inr t \<Rightarrow> Inr (errs @ t))"
  by (simp add: check_year_obj split: sum.splits py_error.splits)

lemma isbn_block_acc:
  "check_isbn (JObj kvs) False errs =
     (case check_isbn (JObj kvs) False [] of Inl e \<Rightarrow> Inl e | Inr t \<Rightarrow> Inr (errs @ t))"
  by (simp add: check_isbn_obj)

lemma validate_blocks:
  assumes "validate_book_data cy (JObj kvs) False = Inr errs"
  obtains t a y i where
    "check_title (JObj kvs) False [] = Inr t"
    "check_author (JObj kvs) False [] = Inr a"
    "check_year cy (JObj kvs) False [] = Inr y"
    "check_isbn (JObj kvs) False [] = Inr i"
    "errs = t @ a @ y @ i"
proof -
  from assms obtain e1 e2 e3 where
    t: "check_title (JObj kvs) False [] = Inr e1" and
    a: "check_author (JObj kvs) False e1 = Inr e2" and
    y: "check_year cy (JObj kvs) False e2 = Inr e3" and
    i: "check_isbn (JObj kvs) False e3 = Inr errs"
    by (auto simp: validate_book_data_def split: sum.splits)
  from a obtain a' where a': "check_author (JObj kvs) False [] = Inr a'" "e2 = e1 @ a'"
    by (subst (asm) author_block_acc) (auto split: sum.splits)
  from y obtain y' where y': "check_year cy (JObj kvs) False [] = Inr y'" "e3 = e2 @ y'"
    by (subst (asm) year_block_acc) (auto split: sum.splits)
  from i obtain i' where i': "check_isbn (JObj kvs) False [] = Inr i'" "errs = e3 @ i'"
    by (subst (asm) isbn_block_acc) (auto split: sum.splits)
  show thesis
    using that [OF t a'(1) y'(1) i'(1)] a'(2) y'(2) i'(2) by simp
qed

lemma validate_non_dict:
  "validate_book_data cy data False = Inr errs \<Longrightarrow> \<exists>kvs. data = JObj kvs"
  by (cases data) (simp_all add: validate_book_data_def check_title_def)

section \<open>Properties of the handlers\<close>

lemma valid_fields:
  assumes "validate_book_data cy (JObj kvs) False = Inr []"
  shows "nonblank_text (dict_get kvs ''title'' JNull)"
    and "nonblank_text (dict_get kvs ''author'' JNull)"
    and "year_accepted cy (dict_get kvs ''year'' JNull)"
    and "truthy (dict_get kvs ''isbn'' JNull)"
proof -
  from assms obtain t a y i where
    t: "check_title (JObj kvs) False [] = Inr t" and
    a: "check_author (JObj kvs) False [] = Inr a" and
    y: "check_year cy (JObj kvs) False [] = Inr y" and
    i: "check_isbn (JObj kvs) False [] = Inr i" and
    e: "[] = t @ a @ y @ i"
    by (rule validate_blocks)
  from e have z: "t = []" "a = []" "y = []" "i = []" by simp_all
  from title_block_result [OF t] z show "nonblank_text (dict_get kvs ''title'' JNull)"
    by (simp split: if_splits)
  from author_block_result [OF a] z show "nonblank_text (dict_get kvs ''author'' JNull)"
    by (simp split: if_splits)
  from year_block_result [OF y] z show "year_accepted cy (dict_get kvs ''year'' JNull)"
    by simp
  from isbn_block_result [OF i] z show "truthy (dict_get kvs ''isbn'' JNull)"
    by (simp split: if_splits)
qed

lemma getitem_dict_get:
  "dict_get kvs k JNull \<noteq> JNull \<Longrightarrow> py_getitem (JObj kvs) k = Inr (dict_get kvs k JNull)"
  by (cases "map_of kvs k") (simp_all add: dict_get_def)

lemma nonblank_not_null: "nonblank_text v \<Longrightarrow> v \<noteq> JNull"
  by (auto simp: nonblank_text_def)

lemma truthy_not_null: "truthy v \<Longrightarrow> v \<noteq> JNull"
  by auto

lemma year_accepted_not_null: "year_accepted cy v \<Longrightarrow> v \<noteq> JNull"
  by (simp add: year_accepted_def)

lemma valid_getitems:
  assumes "validate_book_data cy (JObj kvs) False = Inr []"
  shows "py_getitem (JObj kvs) ''title'' = Inr (dict_get kvs ''title'' JNull)"
    and "py_getitem (JObj kvs) ''author'' = Inr (dict_get kvs ''author'' JNull)"
    and "py_getitem (JObj kvs) ''year'' = Inr (dict_get kvs ''year'' JNull)"
    and "py_getitem (JObj kvs) ''isbn'' = Inr (dict_get kvs ''isbn'' JNull)"
proof -
  note f = valid_fields [OF assms]
  show "py_getitem (JObj kvs) ''title'' = Inr (dict_get kvs ''title'' JNull)"
    by (rule getitem_dict_get [OF nonblank_not_null [OF f(1)]])
  show "py_getitem (JObj kvs) ''author'' = Inr (dict_get kvs ''author'' JNull)"
    by (rule getitem_dict_get [OF nonblank_not_null [OF f(2)]])
  show "py_getitem (JObj kvs) ''year'' = Inr (dict_get kvs ''year'' JNull)"
    by (rule getitem_dict_get [OF year_accepted_not_null [OF f(3)]])
  show "py_getitem (JObj kvs) ''isbn'' = Inr (dict_get kvs ''isbn'' JNull)"
    by (rule getitem_dict_get [OF truthy_not_null [OF f(4)]])
qed

lemma valid_nonempty:
  assumes "validate_book_data cy (JObj kvs) False = Inr []"
  shows "kvs \<noteq> []"
  using valid_fields(4) [OF assms] by (auto simp: dict_get_def)


lemma post_falsy:
  "\<not> truthy data \<Longrightarrow>
   BookList_post cy now raises st data = ((Error ''No JSON data provided'', 400), st)"
  by (simp add: BookList_post_def run_request_def post_try_def begin_session_def)

lemma post_invalid:
  "truthy data \<Longrightarrow> validate_book_data cy data False = Inr errs \<Longrightarrow> errs \<noteq> [] \<Longrightarrow>
   BookList_post cy now raises st data = ((Errors errs, 400), st)"
  by (simp add: BookList_post_def run_request_def post_try_def begin_session_def)

lemma post_validator_raises:
  "truthy data \<Longrightarrow> validate_book_data cy data False = Inl e \<Longrightarrow>
   BookList_post cy now raises st data = ((Error ''Internal server error'', 500), st)"
  by (simp add: BookList_post_def run_request_def post_try_def begin_session_def
        session_rollback_def)

lemma put_falsy:
  "\<not> truthy data \<Longrightarrow>
   BookResource_put cy raises st book_id data = ((Error ''No JSON data provided'', 400), st)"
  by (simp add: BookResource_put_def run_request_def put_try_def begin_session_def)

lemma put_query_raises:
  "truthy data \<Longrightarrow> raises QueryGet \<Longrightarrow>
   BookResource_put cy raises st book_id data = ((Error ''Internal server error'', 500), st)"
  by (simp add: BookResource_put_def run_request_def put_try_def begin_session_def
        query_get_def session_rollback_def)

lemma put_not_found:
  "truthy data \<Longrightarrow> \<not> raises QueryGet \<Longrightarrow> find (\<lambda>b. bid b = book_id) (rows st) = None \<Longrightarrow>
   BookResource_put cy raises st book_id data = ((Error ''Book not found'', 404), st)"
  by (simp add: BookResource_put_def run_request_def put_try_def begin_session_def
        query_get_def)

lemma put_invalid:
  "truthy data \<Longrightarrow> \<not> raises QueryGet \<Longrightarrow> find (\<lambda>b. bid b = book_id) (rows st) = Some book \<Longrightarrow>
   validate_book_data cy data False = Inr errs \<Longrightarrow> errs \<noteq> [] \<Longrightarrow>
   BookResource_put cy raises st book_id data = ((Errors errs, 400), st)"
  by (simp add: BookResource_put_def run_request_def put_try_def begin_session_def
        query_get_def)

lemma put_validator_raises:
  "truthy data \<Longrightarrow> \<not> raises QueryGet \<Longrightarrow> find (\<lambda>b. bid b = book_id) (rows st) = Some book \<Longrightarrow>
   validate_book_data cy data False = Inl e \<Longrightarrow>
   BookResource_put cy raises st book_id data = ((Error ''Internal server error'', 500), st)"
  by (simp add: BookResource_put_def run_request_def put_try_def begin_session_def
        query_get_def session_rollback_def)

lemma find_bid: "find (\<lambda>b. bid b = i) xs = Some b \<Longrightarrow> bid b = i"
  by (auto simp: find_Some_iff)

lemma store_next_id_same [simp]: "st\<lparr>next_id := next_id st\<rparr> = st"
  by simp

lemma post_valid:
  assumes v: "validate_book_data cy (JObj kvs) False = Inr []"
  shows "BookList_post cy now raises st (JObj kvs) =
    (if raises QueryFilter then ((Error ''Internal server error'', 500), st)
     else case lookup_text (dict_get kvs ''isbn'' JNull) of
       None \<Rightarrow> ((Error ''Internal server error'', 500), st)
     | Some q \<Rightarrow>
         if find (\<lambda>b. isbn b = q) (rows st) \<noteq> None
           then ((Error ''Book with this ISBN already exists'', 409), st)
         else if raises Commit then ((Error ''Internal server error'', 500), st)
         else case new_row st now (dict_get kvs ''title'' JNull) (dict_get kvs ''author'' JNull)
                     (dict_get kvs ''year'' JNull) (dict_get kvs ''isbn'' JNull) of
           None \<Rightarrow> ((Error ''Internal server error'', 500), st)
         | Some r \<Rightarrow>
             if list_ex (\<lambda>b. isbn b = isbn r) (rows st)
               then ((Error ''Internal server error'', 500), st\<lparr>next_id := Suc (next_id st)\<rparr>)
             else (case refresh raises
                         (begin_session (st\<lparr>rows := rows st @ [r], next_id := Suc (next_id st)\<rparr>))
                         (next_id st) of
                     Inl e \<Rightarrow> (Error ''Internal server error'', 500)
                   | Inr book \<Rightarrow> (MessageBook ''Book created successfully'' book, 201),
                   st\<lparr>rows := rows st @ [r], next_id := Suc (next_id st)\<rparr>))"
proof -
  note defs = BookList_post_def run_request_def post_try_def v valid_getitems [OF v]
    query_filter_by_isbn_def begin_session_def session_add_def session_commit_def
    session_rollback_def Let_def
  note ne = valid_nonempty [OF v]
  show ?thesis
  proof (cases "raises QueryFilter")
    case True
    with ne show ?thesis by (simp add: defs del: py_getitem.simps)
  next
    case nq: False
    show ?thesis
    proof (cases "lookup_text (dict_get kvs ''isbn'' JNull)")
      case None
      with ne nq show ?thesis by (simp add: defs del: py_getitem.simps)
    next
      case (Some q)
      show ?thesis
      proof (cases "find (\<lambda>b. isbn b = q) (rows st)")
        case (Some existing)
        with ne nq \<open>lookup_text (dict_get kvs ''isbn'' JNull) = Some q\<close> show ?thesis
          by (simp add: defs del: py_getitem.simps)
      next
        case nf: None
        note lk = \<open>lookup_text (dict_get kvs ''isbn'' JNull) = Some q\<close>
        show ?thesis
        proof (cases "raises Commit")
          case True
          with ne nq lk nf show ?thesis by (simp add: defs del: py_getitem.simps)
        next
          case nc: False
          show ?thesis
          proof (cases "new_row st now (dict_get kvs ''title'' JNull) (dict_get kvs ''author'' JNull)
                     (dict_get kvs ''year'' JNull) (dict_get kvs ''isbn'' JNull)")
            case None
            with ne nq lk nf nc show ?thesis by (simp add: defs del: py_getitem.simps)
          next
            case (Some r)
            show ?thesis
            proof (cases "list_ex (\<lambda>b. isbn b = isbn r) (rows st)")
              case True
              with ne nq lk nf nc Some show ?thesis by (simp add: defs del: py_getitem.simps)
            next
              case nu: False
              show ?thesis
              proof (cases "refresh raises
                         (begin_session (st\<lparr>rows := rows st @ [r], next_id := Suc (next_id st)\<rparr>))
                         (next_id st)")
                case (Inl e)
                with ne nq lk nf nc Some nu show ?thesis
                  by (simp add: defs del: py_getitem.simps)
              next
                case (Inr book)
                with ne nq lk nf nc Some nu show ?thesis
                  by (simp add: defs del: py_getitem.simps)
              qed
            qed
          qed
        qed
      qed
    qed
  qed
qed

lemma put_valid:
  assumes v: "validate_book_data cy (JObj kvs) False = Inr []"
      and q: "\<not> raises QueryGet"
      and f: "find (\<lambda>b. bid b = book_id) (rows st) = Some book"
  shows "BookResource_put cy raises st book_id (JObj kvs) =
    (if raises QueryFilter then ((Error ''Internal server error'', 500), st)
     else case lookup_text (dict_get kvs ''isbn'' JNull) of
       None \<Rightarrow> ((Error ''Internal server error'', 500), st)
     | Some n \<Rightarrow>
         if find (\<lambda>b. isbn b = n \<and> bid b \<noteq> book_id) (rows st) \<noteq> None
           then ((Error ''Another book with this ISBN already exists'', 409), st)
         else if raises Commit then ((Error ''Internal server error'', 500), st)
         else if no_change book (dict_get kvs ''title'' JNull) (dict_get kvs ''author'' JNull)
                   (dict_get kvs ''year'' JNull) (dict_get kvs ''isbn'' JNull)
           then (case refresh raises (begin_session st) book_id of
                   Inl e \<Rightarrow> (Error ''Internal server error'', 500)
                 | Inr updated \<Rightarrow> (MessageBook ''Book updated successfully'' updated, 200),
                 st)
         else case updated_row st book (dict_get kvs ''title'' JNull)
                     (dict_get kvs ''author'' JNull) (dict_get kvs ''year'' JNull)
                     (dict_get kvs ''isbn'' JNull) of
           None \<Rightarrow> ((Error ''Internal server error'', 500), st)
         | Some r \<Rightarrow>
             if list_ex (\<lambda>b. bid b \<noteq> book_id \<and> isbn b = isbn r) (rows st)
               then ((Error ''Internal server error'', 500), st)
             else (case refresh raises
                         (begin_session
                            (st\<lparr>rows := filter (\<lambda>b. bid b \<noteq> book_id) (rows st) @ [r]\<rparr>))
                         book_id of
                     Inl e \<Rightarrow> (Error ''Internal server error'', 500)
                   | Inr updated \<Rightarrow> (MessageBook ''Book updated successfully'' updated, 200),
                   st\<lparr>rows := filter (\<lambda>b. bid b \<noteq> book_id) (rows st) @ [r]\<rparr>))"
proof -
  note defs = BookResource_put_def run_request_def put_try_def v valid_getitems [OF v]
    query_get_def query_filter_isbn_other_def begin_session_def session_assign_def
    session_commit_def session_rollback_def Let_def
  note facts = valid_nonempty [OF v] q f find_bid [OF f]
  show ?thesis
  proof (cases "raises QueryFilter")
    case True
    with facts show ?thesis by (simp add: defs del: py_getitem.simps)
  next
    case nq: False
    show ?thesis
    proof (cases "lookup_text (dict_get kvs ''isbn'' JNull)")
      case None
      with facts nq show ?thesis by (simp add: defs del: py_getitem.simps)
    next
      case (Some n)
      note lk = Some
      show ?thesis
      proof (cases "find (\<lambda>b. isbn b = n \<and> bid b \<noteq> book_id) (rows st)")
        case (Some other)
        with facts nq lk show ?thesis by (simp add: defs del: py_getitem.simps)
      next
        case nf: None
        show ?thesis
        proof (cases "raises Commit")
          case True
          with facts nq lk nf show ?thesis by (simp add: defs del: py_getitem.simps)
        next
          case nc: False
          show ?thesis
          proof (cases "no_change book (dict_get kvs ''title'' JNull) (dict_get kvs ''author'' JNull)
                   (dict_get kvs ''year'' JNull) (dict_get kvs ''isbn'' JNull)")
            case same: True
            show ?thesis
            proof (cases "refresh raises (begin_session st) book_id")
              case (Inl e)
              with facts nq lk nf nc same show ?thesis
                by (simp add: defs del: py_getitem.simps)
            next
              case (Inr u)
              with facts nq lk nf nc same show ?thesis
                by (simp add: defs del: py_getitem.simps)
            qed
          next
            case ch: False
            show ?thesis
            proof (cases "updated_row st book (dict_get kvs ''title'' JNull)
                     (dict_get kvs ''author'' JNull) (dict_get kvs ''year'' JNull)
                     (dict_get kvs ''isbn'' JNull)")
              case None
              with facts nq lk nf nc ch show ?thesis by (simp add: defs del: py_getitem.simps)
            next
              case (Some r)
              show ?thesis
              proof (cases "list_ex (\<lambda>b. bid b \<noteq> book_id \<and> isbn b = isbn r) (rows st)")
                case True
                with facts nq lk nf nc ch Some show ?thesis
                  by (simp add: defs del: py_getitem.simps)
              next
                case nu: False
                show ?thesis
                proof (cases "refresh raises
                         (begin_session
                            (st\<lparr>rows := filter (\<lambda>b. bid b \<noteq> book_id) (rows st) @ [r]\<rparr>))
                         book_id")
                  case (Inl e)
                  with facts nq lk nf nc ch Some nu show ?thesis
                    by (simp add: defs del: py_getitem.simps)
                next
                  case (Inr u)
                  with facts nq lk nf nc ch Some nu show ?thesis
                    by (simp add: defs del: py_getitem.simps)
                qed
              qed
            qed
          qed
        qed
      qed
    qed
  qed
qed

lemma delete_result:
  "BookResource_delete raises st book_id =
    (if raises QueryGet then ((Error ''Internal server error'', 500), st)
     else case find (\<lambda>b. bid b = book_id) (rows st) of
       None \<Rightarrow> ((Error ''Book not found'', 404), st)
     | Some book \<Rightarrow>
         if raises Commit then ((Error ''Internal server error'', 500), st)
         else ((MessageOnly ''Book deleted successfully'', 200),
               st\<lparr>rows := filter (\<lambda>b. bid b \<noteq> book_id) (rows st)\<rparr>))"
proof (cases "find (\<lambda>b. bid b = book_id) (rows st)")
  case None
  then show ?thesis
    by (simp add: BookResource_delete_def run_request_def delete_try_def query_get_def
          begin_session_def session_rollback_def)
next
  case (Some book)
  then show ?thesis
    using find_bid [OF Some]
    by (simp add: BookResource_delete_def run_request_def delete_try_def query_get_def
          begin_session_def session_delete_def session_commit_def session_rollback_def Let_def)
qed

subsection \<open>Well-formed tables stay well-formed\<close>

text \<open>
  The empty table is well-formed and every handler keeps a table well-formed, whatever
  the request and whichever store calls fail; so the tables the service can reach are
  well-formed.
\<close>

lemma wf_empty_store: "wf_store empty_store"
  by (simp add: wf_store_def empty_store_def)

lemma find_isbn_None_iff:
  "(find (\<lambda>b. isbn b = v) xs = None) = (v \<notin> isbn ` set xs)"
  by (auto simp: find_None_iff)

lemma list_all_take: "list_all P xs \<Longrightarrow> list_all P (take n xs)"
  by (auto simp: list_all_iff dest: in_set_takeD)

lemma text_column_storable:
  assumes "text_column n v = Some s"
  shows "storable n s"
proof (cases v)
  case (JStr x)
  with assms have nn: "list_all (\<lambda>c. of_char c \<noteq> (0::nat)) x"
    by (simp add: text_column_def split: if_splits)
  show ?thesis
  proof (cases "length x \<le> n")
    case True
    with assms JStr nn have "s = x" by (simp add: text_column_def)
    with True nn show ?thesis by (simp add: storable_def)
  next
    case False
    with assms JStr nn have "s = take n x" by (simp add: text_column_def split: if_splits)
    with list_all_take [OF nn, of n] show ?thesis by (simp add: storable_def)
  qed
qed (insert assms, simp_all add: text_column_def)

lemma assign_text_storable:
  "storable n old \<Longrightarrow> assign_text n v old = Some s \<Longrightarrow> storable n s"
  by (auto simp: assign_text_def text_column_storable split: if_splits)

lemma new_row_Some:
  assumes "new_row st now t a y i = Some r"
  shows "bid r = next_id st" and "created_at r = now"
    and "text_column 200 t = Some (title r)" and "text_column 100 a = Some (author r)"
    and "integer_column (reads_underscores st) y = Some (year r)"
    and "text_column 20 i = Some (isbn r)"
  using assms by (auto simp: new_row_def split: option.splits)

lemma updated_row_Some:
  assumes "updated_row st old t a y i = Some r"
  shows "bid r = bid old" and "created_at r = created_at old"
    and "assign_text 200 t (title old) = Some (title r)"
    and "assign_text 100 a (author old) = Some (author r)"
    and "assign_integer (reads_underscores st) y (year old) = Some (year r)"
    and "assign_text 20 i (isbn old) = Some (isbn r)"
  using assms by (auto simp: updated_row_def split: option.splits)

lemma wf_store_next:
  "wf_store st \<Longrightarrow> wf_store (st\<lparr>next_id := Suc (next_id st)\<rparr>)"
  by (auto simp: wf_store_def list_all_iff)

lemma wf_store_append:
  assumes w: "wf_store st" and u: "\<not> list_ex (\<lambda>b. isbn b = isbn c) (rows st)"
      and k: "bid c = next_id st"
      and s: "storable 200 (title c)" "storable 100 (author c)" "storable 20 (isbn c)"
  shows "wf_store (st\<lparr>rows := rows st @ [c], next_id := Suc (next_id st)\<rparr>)"
proof -
  from w have d: "distinct (map bid (rows st))"
    and l: "list_all (\<lambda>b. bid b < next_id st) (rows st)"
    and i: "distinct (map isbn (rows st))"
    and t: "list_all (\<lambda>b. storable 200 (title b) \<and> storable 100 (author b)
                          \<and> storable 20 (isbn b)) (rows st)"
    by (simp_all add: wf_store_def)
  from l have "next_id st \<notin> bid ` set (rows st)" by (auto simp: list_all_iff)
  moreover from l have "list_all (\<lambda>b. bid b < Suc (next_id st)) (rows st)"
    by (auto simp: list_all_iff)
  moreover from u have "isbn c \<notin> isbn ` set (rows st)" by (auto simp: list_ex_iff)
  ultimately show ?thesis using d i t k s by (simp add: wf_store_def)
qed

lemma wf_store_filter:
  "wf_store st \<Longrightarrow> wf_store (st\<lparr>rows := filter P (rows st)\<rparr>)"
  by (auto simp: wf_store_def list_all_iff distinct_map_filter)

lemma wf_store_update:
  assumes w: "wf_store st"
      and f: "find (\<lambda>b. bid b = k) (rows st) = Some old"
      and u: "\<not> list_ex (\<lambda>b. bid b \<noteq> k \<and> isbn b = isbn c) (rows st)"
      and k: "bid c = k"
      and s: "storable 200 (title c)" "storable 100 (author c)" "storable 20 (isbn c)"
  shows "wf_store (st\<lparr>rows := filter (\<lambda>b. bid b \<noteq> k) (rows st) @ [c]\<rparr>)"
proof -
  let ?xs = "filter (\<lambda>b. bid b \<noteq> k) (rows st)"
  from w have d: "distinct (map bid (rows st))"
    and l: "list_all (\<lambda>b. bid b < next_id st) (rows st)"
    and i: "distinct (map isbn (rows st))"
    and t: "list_all (\<lambda>b. storable 200 (title b) \<and> storable 100 (author b)
                          \<and> storable 20 (isbn b)) (rows st)"
    by (simp_all add: wf_store_def)
  from f have "old \<in> set (rows st)" "bid old = k" by (auto simp: find_Some_iff)
  with l have b: "k < next_id st" by (auto simp: list_all_iff)
  from d have 1: "distinct (map bid ?xs)" by (rule distinct_map_filter)
  from i have 2: "distinct (map isbn ?xs)" by (rule distinct_map_filter)
  have 3: "k \<notin> bid ` set ?xs" by auto
  from u have 4: "isbn c \<notin> isbn ` set ?xs" by (auto simp: list_ex_iff)
  from l have 5: "list_all (\<lambda>b. bid b < next_id st) ?xs" by (auto simp: list_all_iff)
  from t have 6: "list_all (\<lambda>b. storable 200 (title b) \<and> storable 100 (author b)
                          \<and> storable 20 (isbn b)) ?xs"
    by (auto simp: list_all_iff)
  from 1 2 3 4 5 6 b k s show ?thesis by (simp add: wf_store_def)
qed

lemma post_cases:
  assumes "BookList_post cy now raises st data = (resp, st')"
  shows "st' = st \<or> st' = st\<lparr>next_id := Suc (next_id st)\<rparr>
       \<or> (\<exists>r t a y i. new_row st now t a y i = Some r
              \<and> \<not> list_ex (\<lambda>b. isbn b = isbn r) (rows st)
              \<and> st' = st\<lparr>rows := rows st @ [r], next_id := Suc (next_id st)\<rparr>)"
proof (cases "truthy data")
  case False
  with assms show ?thesis by (simp add: post_falsy)
next
  case True
  show ?thesis
  proof (cases "validate_book_data cy data False")
    case (Inl e)
    with assms True show ?thesis by (simp add: post_validator_raises)
  next
    case (Inr errs)
    show ?thesis
    proof (cases "errs = []")
      case False
      with assms True Inr show ?thesis by (simp add: post_invalid)
    next
      case e: True
      from Inr obtain kvs where k: "data = JObj kvs" by (auto dest: validate_non_dict)
      with Inr e have v: "validate_book_data cy (JObj kvs) False = Inr []" by simp
      from assms have "st' = st \<or> st' = st\<lparr>next_id := Suc (next_id st)\<rparr>
          \<or> (\<exists>r. new_row st now (dict_get kvs ''title'' JNull) (dict_get kvs ''author'' JNull)
                     (dict_get kvs ''year'' JNull) (dict_get kvs ''isbn'' JNull) = Some r
                 \<and> \<not> list_ex (\<lambda>b. isbn b = isbn r) (rows st)
                 \<and> st' = st\<lparr>rows := rows st @ [r], next_id := Suc (next_id st)\<rparr>)"
        unfolding k post_valid [OF v]
        by (auto split: if_splits option.splits)
      then show ?thesis by blast
    qed
  qed
qed

lemma put_cases:
  assumes "BookResource_put cy raises st book_id data = (resp, st')"
  shows "st' = st
       \<or> (\<exists>book r t a y i. find (\<lambda>b. bid b = book_id) (rows st) = Some book
              \<and> updated_row st book t a y i = Some r
              \<and> \<not> list_ex (\<lambda>b. bid b \<noteq> book_id \<and> isbn b = isbn r) (rows st)
              \<and> st' = st\<lparr>rows := filter (\<lambda>b. bid b \<noteq> book_id) (rows st) @ [r]\<rparr>)"
proof (cases "truthy data")
  case False
  with assms show ?thesis by (simp add: put_falsy)
next
  case True
  show ?thesis
  proof (cases "raises QueryGet")
    case True
    with assms \<open>truthy data\<close> show ?thesis by (simp add: put_query_raises)
  next
    case q: False
    show ?thesis
    proof (cases "find (\<lambda>b. bid b = book_id) (rows st)")
      case None
      with assms True q show ?thesis by (simp add: put_not_found)
    next
      case (Some book)
      show ?thesis
      proof (cases "validate_book_data cy data False")
        case (Inl e)
        with assms True q Some show ?thesis by (simp add: put_validator_raises)
      next
        case (Inr errs)
        show ?thesis
        proof (cases "errs = []")
          case False
          with assms True q Some Inr show ?thesis by (simp add: put_invalid)
        next
          case e: True
          from Inr obtain kvs where k: "data = JObj kvs" by (auto dest: validate_non_dict)
          with Inr e have v: "validate_book_data cy (JObj kvs) False = Inr []" by simp
          from assms have "st' = st
              \<or> (\<exists>r. updated_row st book (dict_get kvs ''title'' JNull)
                         (dict_get kvs ''author'' JNull) (dict_get kvs ''year'' JNull)
                         (dict_get kvs ''isbn'' JNull) = Some r
                     \<and> \<not> list_ex (\<lambda>b. bid b \<noteq> book_id \<and> isbn b = isbn r) (rows st)
                     \<and> st' = st\<lparr>rows := filter (\<lambda>b. bid b \<noteq> book_id) (rows st) @ [r]\<rparr>)"
            unfolding k put_valid [where raises = raises, OF v q Some]
            by (auto split: if_splits option.splits)
          with Some show ?thesis by blast
        qed
      qed
    qed
  qed
qed

lemma post_preserves_wf:
  assumes "wf_store st"
  shows "wf_store (snd (BookList_post cy now raises st data))"
proof -
  obtain resp st' where r: "BookList_post cy now raises st data = (resp, st')"
    by (cases "BookList_post cy now raises st data")
  from post_cases [OF r] consider "st' = st" | "st' = st\<lparr>next_id := Suc (next_id st)\<rparr>"
    | c t a y i where "new_row st now t a y i = Some c"
        "\<not> list_ex (\<lambda>b. isbn b = isbn c) (rows st)"
        "st' = st\<lparr>rows := rows st @ [c], next_id := Suc (next_id st)\<rparr>"
    by blast
  then have "wf_store st'"
  proof cases
    case 1
    with assms show ?thesis by simp
  next
    case 2
    with assms show ?thesis by (simp only: wf_store_next)
  next
    case 3
    note n = new_row_Some [OF 3(1)]
    show ?thesis
      unfolding 3(3)
      by (rule wf_store_append [OF assms 3(2) n(1)])
         (rule text_column_storable, rule n)+
  qed
  with r show ?thesis by simp
qed

lemma put_preserves_wf:
  assumes "wf_store st"
  shows "wf_store (snd (BookResource_put cy raises st book_id data))"
proof -
  obtain resp st' where r: "BookResource_put cy raises st book_id data = (resp, st')"
    by (cases "BookResource_put cy raises st book_id data")
  from put_cases [OF r] consider "st' = st"
    | book c t a y i where "find (\<lambda>b. bid b = book_id) (rows st) = Some book"
        "updated_row st book t a y i = Some c"
        "\<not> list_ex (\<lambda>b. bid b \<noteq> book_id \<and> isbn b = isbn c) (rows st)"
        "st' = st\<lparr>rows := filter (\<lambda>b. bid b \<noteq> book_id) (rows st) @ [c]\<rparr>"
    by blast
  then have "wf_store st'"
  proof cases
    case 1
    with assms show ?thesis by simp
  next
    case 2
    note n = updated_row_Some [OF 2(2)]
    from 2(1) have m: "book \<in> set (rows st)" "bid book = book_id"
      by (auto simp: find_Some_iff)
    with assms have o: "storable 200 (title book)" "storable 100 (author book)"
      "storable 20 (isbn book)"
      by (auto simp: wf_store_def list_all_iff)
    from n(1) m(2) have k: "bid c = book_id" by simp
    show ?thesis
      unfolding 2(4)
      by (rule wf_store_update [OF assms 2(1) 2(3) k])
         (rule assign_text_storable [OF o(1) n(3)], rule assign_text_storable [OF o(2) n(4)],
          rule assign_text_storable [OF o(3) n(6)])
  qed
  with r show ?thesis by simp
qed

lemma delete_preserves_wf:
  assumes "wf_store st"
  shows "wf_store (snd (BookResource_delete raises st book_id))"
  using assms wf_store_filter [OF assms, of "\<lambda>b. bid b \<noteq> book_id"]
  by (simp add: delete_result split: option.splits)

subsection \<open>A create that succeeds, a get that finds\<close>

lemma find_fresh_id:
  "list_all (\<lambda>b. bid b < n) xs \<Longrightarrow> find (\<lambda>b. bid b = n) (xs @ [c]) = (if bid c = n then Some c else None)"
  by (induction xs) auto

lemma fits_text_JStr: "fits_text n v \<Longrightarrow> \<exists>s. v = JStr s \<and> storable n s"
  by (cases v) (simp_all add: fits_text_def)

lemma fits_text_column: "storable n s \<Longrightarrow> text_column n (JStr s) = Some s"
  by (simp add: text_column_def storable_def)

lemma storable_lookup: "storable n s \<Longrightarrow> lookup_text (JStr s) = Some s"
  by (simp add: storable_def)

lemma fits_payload:
  assumes "fits_columns kvs"
  shows "dict_get kvs ''title'' JNull = JStr (payload_text kvs ''title'')"
    and "dict_get kvs ''author'' JNull = JStr (payload_text kvs ''author'')"
    and "dict_get kvs ''year'' JNull = JInt (payload_int kvs ''year'')"
    and "dict_get kvs ''isbn'' JNull = JStr (payload_text kvs ''isbn'')"
    and "storable 200 (payload_text kvs ''title'')"
    and "storable 100 (payload_text kvs ''author'')"
    and "in_int4 (payload_int kvs ''year'')"
    and "storable 20 (payload_text kvs ''isbn'')"
proof -
  from assms have t: "fits_text 200 (dict_get kvs ''title'' JNull)"
    and a: "fits_text 100 (dict_get kvs ''author'' JNull)"
    and y: "fits_integer (dict_get kvs ''year'' JNull)"
    and i: "fits_text 20 (dict_get kvs ''isbn'' JNull)"
    by (simp_all add: fits_columns_def)
  from t show "dict_get kvs ''title'' JNull = JStr (payload_text kvs ''title'')"
    "storable 200 (payload_text kvs ''title'')"
    by (cases "dict_get kvs ''title'' JNull"; simp add: fits_text_def payload_text_def)+
  from a show "dict_get kvs ''author'' JNull = JStr (payload_text kvs ''author'')"
    "storable 100 (payload_text kvs ''author'')"
    by (cases "dict_get kvs ''author'' JNull"; simp add: fits_text_def payload_text_def)+
  from i show "dict_get kvs ''isbn'' JNull = JStr (payload_text kvs ''isbn'')"
    "storable 20 (payload_text kvs ''isbn'')"
    by (cases "dict_get kvs ''isbn'' JNull"; simp add: fits_text_def payload_text_def)+
  from y show "dict_get kvs ''year'' JNull = JInt (payload_int kvs ''year'')"
    "in_int4 (payload_int kvs ''year'')"
    by (cases "dict_get kvs ''year'' JNull"; simp add: fits_integer_def payload_int_def)+
qed

lemma new_row_fits:
  assumes "fits_columns kvs"
  shows "new_row st now (dict_get kvs ''title'' JNull) (dict_get kvs ''author'' JNull)
           (dict_get kvs ''year'' JNull) (dict_get kvs ''isbn'' JNull)
         = Some (book_of_payload (next_id st) now kvs)"
proof -
  note f = fits_payload [OF assms]
  show ?thesis
    unfolding f(1-4)
    by (simp add: new_row_def fits_text_column [OF f(5)] fits_text_column [OF f(6)]
          fits_text_column [OF f(8)] checked_int4_def f(7) book_of_payload_def)
qed

lemma post_row:
  assumes v: "validate_book_data cy (JObj kvs) False = Inr []"
      and w: "wf_store st"
      and n: "new_row st now (dict_get kvs ''title'' JNull) (dict_get kvs ''author'' JNull)
                (dict_get kvs ''year'' JNull) (dict_get kvs ''isbn'' JNull) = Some c"
      and i: "dict_get kvs ''isbn'' JNull = JStr (isbn c)"
      and u: "find (\<lambda>b. isbn b = isbn c) (rows st) = None"
      and r: "\<not> raises QueryFilter" "\<not> raises Commit" "\<not> raises Refresh"
  shows "BookList_post cy now raises st (JObj kvs) =
           ((MessageBook ''Book created successfully'' c, 201),
            st\<lparr>rows := rows st @ [c], next_id := Suc (next_id st)\<rparr>)"
proof -
  note m = new_row_Some [OF n]
  from text_column_storable [OF m(6)] have l: "lookup_text (JStr (isbn c)) = Some (isbn c)"
    by (rule storable_lookup)
  from u have x: "\<not> list_ex (\<lambda>b. isbn b = isbn c) (rows st)"
    by (auto simp: find_None_iff list_ex_iff)
  from w have "list_all (\<lambda>b. bid b < next_id st) (rows st)" by (simp add: wf_store_def)
  then have "find (\<lambda>b. bid b = next_id st) (rows st @ [c]) = Some c"
    by (simp add: find_fresh_id m(1))
  then have f: "refresh raises
                  (begin_session (st\<lparr>rows := rows st @ [c], next_id := Suc (next_id st)\<rparr>))
                  (next_id st) = Inr c"
    using r(3) by (simp add: refresh_def begin_session_def)
  show ?thesis
    unfolding post_valid [OF v] n
    by (simp only: i l u x r f if_False option.case sum.case simp_thms)
qed

lemma post_creates:
  assumes v: "validate_book_data cy (JObj kvs) False = Inr []"
      and w: "wf_store st"
      and c: "fits_columns kvs"
      and u: "find (\<lambda>b. isbn b = payload_text kvs ''isbn'') (rows st) = None"
      and r: "\<not> raises QueryFilter" "\<not> raises Commit" "\<not> raises Refresh"
  shows "BookList_post cy now raises st (JObj kvs) =
           ((MessageBook ''Book created successfully'' (book_of_payload (next_id st) now kvs), 201),
            st\<lparr>rows := rows st @ [book_of_payload (next_id st) now kvs],
               next_id := Suc (next_id st)\<rparr>)"
proof -
  have i: "isbn (book_of_payload (next_id st) now kvs) = payload_text kvs ''isbn''"
    by (simp add: book_of_payload_def)
  show ?thesis
    by (rule post_row [OF v w new_row_fits [OF c] _ _ r])
       (simp_all only: i fits_payload(4) [OF c] u)
qed


lemma get_found:
  "\<not> raises QueryGet \<Longrightarrow> find (\<lambda>b. bid b = i) (rows st) = Some b \<Longrightarrow>
   BookResource_get raises st i = (BookOnly b, 200)"
  by (simp add: BookResource_get_def query_get_def begin_session_def)

section \<open>The claims\<close>

subsection \<open>C1: create, then get\<close>




subsection \<open>C2: a second create with the same isbn\<close>

lemma count_isbn_appended:
  assumes "find (\<lambda>b. isbn b = v) xs = None" and "isbn c = v"
  shows "length (filter (\<lambda>b. isbn b = v) (xs @ [c])) = 1"
proof -
  from assms(1) have "filter (\<lambda>b. isbn b = v) xs = []"
    by (auto simp: find_None_iff filter_empty_conv)
  with assms(2) show ?thesis by simp
qed

lemma find_isbn_appended:
  "isbn c = v \<Longrightarrow> find (\<lambda>b. isbn b = v) (xs @ [c]) \<noteq> None"
  by (auto simp: find_None_iff)

lemma count_isbn_distinct:
  "distinct (map isbn xs) \<Longrightarrow> v \<in> isbn ` set xs \<Longrightarrow>
   length (filter (\<lambda>b. isbn b = v) xs) = 1"
proof (induction xs)
  case Nil
  then show ?case by simp
next
  case (Cons x xs)
  show ?case
  proof (cases "isbn x = v")
    case True
    with Cons.prems(1) have "v \<notin> isbn ` set xs" by simp
    then have "\<forall>b\<in>set xs. isbn b \<noteq> v" by blast
    then have "filter (\<lambda>b. isbn b = v) xs = []" by (simp add: filter_empty_conv)
    with True show ?thesis by simp
  next
    case False
    with Cons show ?thesis by auto
  qed
qed

lemma columns_take_new_row:
  assumes "columns_take st kvs"
  shows "\<exists>c. new_row st now (dict_get kvs ''title'' JNull) (dict_get kvs ''author'' JNull)
               (dict_get kvs ''year'' JNull) (dict_get kvs ''isbn'' JNull) = Some c"
  using assms by (auto simp: columns_take_def new_row_def)

text \<open>
  C2, as amended. Two create calls in sequence, both with payloads that pass validation
  and that carry the same isbn, a string of at most 20 characters, on a well-formed
  table; the engine takes the values of the first payload, and the store does not fail
  in the first call up to its commit, nor at the second call's lookup. Then the second
  call answers 409 "Book with this ISBN already exists" and changes nothing, because the
  lookup of line 159 finds a Book with that isbn; and the table holds exactly one Book
  with that isbn. (A payload that fails validation is answered 400 before the lookup.)
\<close>

theorem second_create_conflicts:
  assumes w: "wf_store st"
      and first: "validate_book_data cy (JObj kvs) False = Inr []"
      and second: "validate_book_data cy' (JObj kvs') False = Inr []"
      and same: "dict_get kvs' ''isbn'' JNull = dict_get kvs ''isbn'' JNull"
      and t: "columns_take st kvs"
      and l: "fits_text 20 (dict_get kvs ''isbn'' JNull)"
      and r: "\<not> raises QueryFilter" "\<not> raises Commit"
      and q: "\<not> raises' QueryFilter"
      and st1: "st1 = snd (BookList_post cy now raises st (JObj kvs))"
  shows "BookList_post cy' now' raises' st1 (JObj kvs')
           = ((Error ''Book with this ISBN already exists'', 409), st1)
       \<and> length (filter (\<lambda>b. JStr (isbn b) = dict_get kvs ''isbn'' JNull) (rows st1)) = 1"
proof -
  from fits_text_JStr [OF l] obtain s where
    s: "dict_get kvs ''isbn'' JNull = JStr s" and ss: "storable 20 s"
    by blast
  note lk = storable_lookup [OF ss]
  have held: "find (\<lambda>b. isbn b = s) (rows st1) \<noteq> None
            \<and> length (filter (\<lambda>b. isbn b = s) (rows st1)) = 1"
  proof (cases "find (\<lambda>b. isbn b = s) (rows st)")
    case None
    from columns_take_new_row [OF t] obtain c where
      n: "new_row st now (dict_get kvs ''title'' JNull) (dict_get kvs ''author'' JNull)
            (dict_get kvs ''year'' JNull) (dict_get kvs ''isbn'' JNull) = Some c"
      by blast
    from new_row_Some(6) [OF n] have i: "isbn c = s"
      by (simp add: s fits_text_column [OF ss])
    from None have x: "\<not> list_ex (\<lambda>b. isbn b = isbn c) (rows st)"
      by (auto simp: i find_None_iff list_ex_iff)
    have "st1 = st\<lparr>rows := rows st @ [c], next_id := Suc (next_id st)\<rparr>"
      unfolding st1 post_valid [OF first] n
      by (simp add: s lk None x r del: lookup_text.simps)
    with find_isbn_appended [OF i] count_isbn_appended [OF None i] show ?thesis by simp
  next
    case (Some b)
    have e: "st1 = st"
      unfolding st1 post_valid [OF first] by (simp add: s lk Some r del: lookup_text.simps)
    from Some have "find (\<lambda>b. isbn b = s) (rows st) \<noteq> None" by simp
    then have "s \<in> isbn ` set (rows st)" by (simp only: find_isbn_None_iff simp_thms)
    moreover from w have "distinct (map isbn (rows st))" by (simp add: wf_store_def)
    ultimately have "length (filter (\<lambda>b. isbn b = s) (rows st)) = 1"
      by (simp add: count_isbn_distinct)
    with Some e show ?thesis by simp
  qed
  with q have "BookList_post cy' now' raises' st1 (JObj kvs')
           = ((Error ''Book with this ISBN already exists'', 409), st1)"
    by (simp add: post_valid [OF second] same s lk del: lookup_text.simps)
  with held show ?thesis by (simp add: s)
qed

text \<open>
  The specification's example: the second create of Dune.
\<close>

lemma dune_created:
  "BookList_post 2026 7 no_failure empty_store (JObj dune)
     = ((MessageBook ''Book created successfully'' (book_of_payload 1 7 dune), 201), dune_store)"
proof -
  have v: "validate_book_data 2026 (JObj dune) False = Inr []" by code_simp
  have c: "fits_columns dune" by code_simp
  have u: "find (\<lambda>b. isbn b = payload_text dune ''isbn'') (rows empty_store) = None"
    by (simp add: empty_store_def)
  have r: "\<not> no_failure QueryFilter" "\<not> no_failure Commit" "\<not> no_failure Refresh"
    by (simp_all add: no_failure_def)
  show ?thesis
    unfolding post_creates [where raises = no_failure, OF v wf_empty_store c u r]
    by (simp add: empty_store_def dune_store_def)
qed

theorem second_create_conflicts_witness:
  "wf_store empty_store
   \<and> validate_book_data 2026 (JObj dune) False = Inr []
   \<and> columns_take empty_store dune
   \<and> fits_text 20 (dict_get dune ''isbn'' JNull)
   \<and> \<not> no_failure QueryFilter \<and> \<not> no_failure Commit
   \<and> dune_store = snd (BookList_post 2026 7 no_failure empty_store (JObj dune))
   \<and> BookList_post 2026 9 no_failure dune_store (JObj dune)
       = ((Error ''Book with this ISBN already exists'', 409), dune_store)
   \<and> length (filter (\<lambda>b. JStr (isbn b) = dict_get dune ''isbn'' JNull) (rows dune_store)) = 1"
proof -
  have v: "validate_book_data 2026 (JObj dune) False = Inr []" by code_simp
  have t: "columns_take empty_store dune" by code_simp
  have l: "fits_text 20 (dict_get dune ''isbn'' JNull)" by code_simp
  have q: "\<not> no_failure QueryFilter" "\<not> no_failure Commit" by (simp_all add: no_failure_def)
  have s: "dune_store = snd (BookList_post 2026 7 no_failure empty_store (JObj dune))"
    by (simp add: dune_created)
  from second_create_conflicts [where raises = no_failure and raises' = no_failure,
      OF wf_empty_store v v refl t l q q(1) s, of 9]
    wf_empty_store v t l q s
  show ?thesis by simp
qed

text \<open>
  C2 as stated fails, in two ways. When the engine rejects the first create (Dune with
  a title of 201 characters: 500, nothing stored), a second create with the same isbn
  answers 201, not Conflict. And when the isbn has more than 20 characters of which all
  beyond the 20th are spaces (Dune with eight spaces after its isbn), the first create
  answers 201 and stores the isbn cut to 20 characters; the lookup of the second create
  compares with the uncut isbn and finds nothing, the insert violates the unique
  constraint, and the second create answers 500, not 409.
\<close>

theorem second_create_not_conflict_counterexample:
  "validate_book_data 2026 (JObj dune_long_title) False = Inr []
   \<and> validate_book_data 2026 (JObj dune) False = Inr []
   \<and> dict_get dune ''isbn'' JNull = dict_get dune_long_title ''isbn'' JNull
   \<and> BookList_post 2026 5 no_failure empty_store (JObj dune_long_title)
       = ((Error ''Internal server error'', 500), empty_store)
   \<and> BookList_post 2026 7 no_failure empty_store (JObj dune)
       = ((MessageBook ''Book created successfully'' (book_of_payload 1 7 dune), 201), dune_store)
   \<and> validate_book_data 2026 (JObj dune_padded_isbn) False = Inr []
   \<and> BookList_post 2026 7 no_failure empty_store (JObj dune_padded_isbn)
       = ((MessageBook ''Book created successfully''
             \<lparr>bid = 1, title = ''Dune'', author = ''Herbert'', year = 1965,
              isbn = ''9780441013593       '', created_at = 7\<rparr>, 201),
          \<lparr>rows = [\<lparr>bid = 1, title = ''Dune'', author = ''Herbert'', year = 1965,
                    isbn = ''9780441013593       '', created_at = 7\<rparr>],
           next_id = 2, reads_underscores = False\<rparr>)
   \<and> BookList_post 2026 9 no_failure
        \<lparr>rows = [\<lparr>bid = 1, title = ''Dune'', author = ''Herbert'', year = 1965,
                  isbn = ''9780441013593       '', created_at = 7\<rparr>],
         next_id = 2, reads_underscores = False\<rparr>
        (JObj dune_padded_isbn)
       = ((Error ''Internal server error'', 500),
          \<lparr>rows = [\<lparr>bid = 1, title = ''Dune'', author = ''Herbert'', year = 1965,
                    isbn = ''9780441013593       '', created_at = 7\<rparr>],
           next_id = 3, reads_underscores = False\<rparr>)"
proof -
  let ?b = "\<lparr>bid = 1, title = ''Dune'', author = ''Herbert'', year = 1965,
             isbn = ''9780441013593       '', created_at = 7\<rparr>"
  let ?st = "\<lparr>rows = [?b], next_id = 2, reads_underscores = False\<rparr>"
  have v1: "validate_book_data 2026 (JObj dune_long_title) False = Inr []" by code_simp
  have v2: "validate_book_data 2026 (JObj dune) False = Inr []" by code_simp
  have v3: "validate_book_data 2026 (JObj dune_padded_isbn) False = Inr []" by code_simp
  have e: "dict_get dune ''isbn'' JNull = dict_get dune_long_title ''isbn'' JNull"
    by code_simp
  have l1: "lookup_text (dict_get dune_long_title ''isbn'' JNull) = Some ''9780441013593''"
    by code_simp
  have n1: "new_row empty_store 5 (dict_get dune_long_title ''title'' JNull)
             (dict_get dune_long_title ''author'' JNull) (dict_get dune_long_title ''year'' JNull)
             (dict_get dune_long_title ''isbn'' JNull) = None"
    by code_simp
  have p1: "BookList_post 2026 5 no_failure empty_store (JObj dune_long_title)
       = ((Error ''Internal server error'', 500), empty_store)"
    unfolding post_valid [OF v1] l1 n1 by (simp add: no_failure_def empty_store_def)
  have l3: "lookup_text (dict_get dune_padded_isbn ''isbn'' JNull)
              = Some ''9780441013593        ''"
    by code_simp
  have n3: "new_row empty_store 7 (dict_get dune_padded_isbn ''title'' JNull)
             (dict_get dune_padded_isbn ''author'' JNull) (dict_get dune_padded_isbn ''year'' JNull)
             (dict_get dune_padded_isbn ''isbn'' JNull) = Some ?b"
    by code_simp
  have p3: "BookList_post 2026 7 no_failure empty_store (JObj dune_padded_isbn)
       = ((MessageBook ''Book created successfully'' ?b, 201), ?st)"
    unfolding post_valid [OF v3] l3 n3
    by (simp add: no_failure_def empty_store_def refresh_def begin_session_def)
  have n4: "new_row ?st 9 (dict_get dune_padded_isbn ''title'' JNull)
             (dict_get dune_padded_isbn ''author'' JNull) (dict_get dune_padded_isbn ''year'' JNull)
             (dict_get dune_padded_isbn ''isbn'' JNull) = Some (?b\<lparr>bid := 2, created_at := 9\<rparr>)"
    by code_simp
  have p4: "BookList_post 2026 9 no_failure ?st (JObj dune_padded_isbn)
       = ((Error ''Internal server error'', 500),
          \<lparr>rows = [?b], next_id = 3, reads_underscores = False\<rparr>)"
    unfolding post_valid [OF v3] l3 n4
    by (simp add: no_failure_def)
  from v1 v2 v3 e p1 dune_created p3 p4 show ?thesis by simp
qed

subsection \<open>C3: the validator collects every field's errors in a fixed order\<close>

lemma title_block_set:
  "check_title (JObj kvs) False [] = Inr t \<Longrightarrow> set t \<subseteq> {''Title is required''}"
  by (drule title_block_result) (simp split: if_splits)

lemma author_block_set:
  "check_author (JObj kvs) False [] = Inr a \<Longrightarrow> set a \<subseteq> {''Author is required''}"
  by (drule author_block_result) (simp split: if_splits)

lemma isbn_block_set:
  "check_isbn (JObj kvs) False [] = Inr i \<Longrightarrow> set i \<subseteq> {''ISBN is required''}"
  by (drule isbn_block_result) (simp split: if_splits)

text \<open>
  C3, as amended. For every payload object on which validation in non-partial mode
  returns (it raises for a title or author that is truthy and not a string, see C9):
  the result is the concatenation, in the order title, author, year, isbn, of what each
  block reports for its own field alone, so no block is skipped because an earlier one
  reported an error; each part holds only messages of its own field; and the result is
  empty exactly when title and author are strings with a character that is not
  whitespace, year is not null and \<^verbatim>\<open>int()\<close> converts it to a value between 0 and the
  current year, and isbn is truthy.
\<close>

theorem validate_collects_fields_in_order:
  assumes "validate_book_data cy (JObj kvs) False = Inr errs"
  shows "(\<exists>t a y i.
            check_title (only_field ''title'' kvs) False [] = Inr t
          \<and> set t \<subseteq> {''Title is required''}
          \<and> check_author (only_field ''author'' kvs) False [] = Inr a
          \<and> set a \<subseteq> {''Author is required''}
          \<and> check_year cy (only_field ''year'' kvs) False [] = Inr y
          \<and> set y \<subseteq> year_messages cy
          \<and> check_isbn (only_field ''isbn'' kvs) False [] = Inr i
          \<and> set i \<subseteq> {''ISBN is required''}
          \<and> errs = t @ a @ y @ i)
       \<and> ((errs = []) =
            (nonblank_text (dict_get kvs ''title'' JNull)
             \<and> nonblank_text (dict_get kvs ''author'' JNull)
             \<and> year_accepted cy (dict_get kvs ''year'' JNull)
             \<and> truthy (dict_get kvs ''isbn'' JNull)))"
proof -
  from assms obtain t a y i where
    t: "check_title (JObj kvs) False [] = Inr t" and
    a: "check_author (JObj kvs) False [] = Inr a" and
    y: "check_year cy (JObj kvs) False [] = Inr y" and
    i: "check_isbn (JObj kvs) False [] = Inr i" and
    e: "errs = t @ a @ y @ i"
    by (rule validate_blocks)
  from year_block_result [OF y] obtain y' where
    "y = [] @ y'" "set y' \<subseteq> year_messages cy"
    "(y' = []) = year_accepted cy (dict_get kvs ''year'' JNull)"
    by blast
  then have ys: "set y \<subseteq> year_messages cy"
    and yv: "(y = []) = year_accepted cy (dict_get kvs ''year'' JNull)"
    by simp_all
  have ts: "set t \<subseteq> {''Title is required''}" by (rule title_block_set [OF t])
  have ass: "set a \<subseteq> {''Author is required''}" by (rule author_block_set [OF a])
  have iss: "set i \<subseteq> {''ISBN is required''}" by (rule isbn_block_set [OF i])
  have t': "check_title (only_field ''title'' kvs) False [] = Inr t"
    by (simp only: check_title_only t)
  have a': "check_author (only_field ''author'' kvs) False [] = Inr a"
    by (simp only: check_author_only a)
  have y': "check_year cy (only_field ''year'' kvs) False [] = Inr y"
    by (simp only: check_year_only y)
  have i': "check_isbn (only_field ''isbn'' kvs) False [] = Inr i"
    by (simp only: check_isbn_only i)
  have parts: "\<exists>t a y i.
            check_title (only_field ''title'' kvs) False [] = Inr t
          \<and> set t \<subseteq> {''Title is required''}
          \<and> check_author (only_field ''author'' kvs) False [] = Inr a
          \<and> set a \<subseteq> {''Author is required''}
          \<and> check_year cy (only_field ''year'' kvs) False [] = Inr y
          \<and> set y \<subseteq> year_messages cy
          \<and> check_isbn (only_field ''isbn'' kvs) False [] = Inr i
          \<and> set i \<subseteq> {''ISBN is required''}
          \<and> errs = t @ a @ y @ i"
    using t' ts a' ass y' ys i' iss e by blast
  have tv: "(t = []) = nonblank_text (dict_get kvs ''title'' JNull)"
    using title_block_result [OF t] by (simp split: if_splits)
  have av: "(a = []) = nonblank_text (dict_get kvs ''author'' JNull)"
    using author_block_result [OF a] by (simp split: if_splits)
  have iv: "(i = []) = truthy (dict_get kvs ''isbn'' JNull)"
    using isbn_block_result [OF i] by (simp split: if_splits)
  have "(errs = []) = (t = [] \<and> a = [] \<and> y = [] \<and> i = [])"
    by (simp add: e)
  with tv av yv iv parts show ?thesis by simp
qed

text \<open>The theorem at a payload with a blank title, a year that is not a number and no
  isbn: three errors, in field order.\<close>

theorem validate_collects_fields_in_order_witness:
  "validate_book_data 2026
     (JObj [(''title'', JStr ''  ''), (''author'', JStr ''Herbert''), (''year'', JStr ''abc'')])
     False
   = Inr [''Title is required'', ''Year must be a valid integer'', ''ISBN is required'']
   \<and> (\<exists>t a y i.
         check_title (only_field ''title''
            [(''title'', JStr ''  ''), (''author'', JStr ''Herbert''), (''year'', JStr ''abc'')])
            False [] = Inr t
       \<and> check_isbn (only_field ''isbn''
            [(''title'', JStr ''  ''), (''author'', JStr ''Herbert''), (''year'', JStr ''abc'')])
            False [] = Inr i
       \<and> [''Title is required'', ''Year must be a valid integer'', ''ISBN is required'']
          = t @ a @ y @ i)"
proof -
  have h: "validate_book_data 2026
     (JObj [(''title'', JStr ''  ''), (''author'', JStr ''Herbert''), (''year'', JStr ''abc'')])
     False
   = Inr [''Title is required'', ''Year must be a valid integer'', ''ISBN is required'']"
    by code_simp
  from validate_collects_fields_in_order [OF h] obtain t a y i where
    "check_title (only_field ''title''
            [(''title'', JStr ''  ''), (''author'', JStr ''Herbert''), (''year'', JStr ''abc'')])
            False [] = Inr t"
    "check_isbn (only_field ''isbn''
            [(''title'', JStr ''  ''), (''author'', JStr ''Herbert''), (''year'', JStr ''abc'')])
            False [] = Inr i"
    "[''Title is required'', ''Year must be a valid integer'', ''ISBN is required'']
          = t @ a @ y @ i"
    by fast
  with h show ?thesis by fast
qed

text \<open>
  C3 as stated fails: "exactly when the payload is fully valid". A payload whose isbn is
  the empty string satisfies every rule of the specification's validator (isbn is
  present, and the check is presence-only), yet the validator reports an error, because
  line 107 tests the truth value of the field.
\<close>

theorem validate_empty_isbn_counterexample:
  "spec_fully_valid 2026
     [(''title'', JStr ''Dune''), (''author'', JStr ''Herbert''), (''year'', JInt 1965),
      (''isbn'', JStr '''')]
   \<and> validate_book_data 2026
       (JObj [(''title'', JStr ''Dune''), (''author'', JStr ''Herbert''), (''year'', JInt 1965),
              (''isbn'', JStr '''')]) False
     = Inr [''ISBN is required'']"
  by code_simp

subsection \<open>C4: the year rule\<close>

lemma int_of_abc: "py_int (JStr ''abc'') = Inl ValueError"
  by code_simp

lemma year_block_present:
  "map_of kvs ''year'' = Some v \<Longrightarrow> dict_get kvs ''year'' JNull = v"
  by (simp add: dict_get_def)

lemma year_block_absent:
  "map_of kvs ''year'' = None \<Longrightarrow> dict_get kvs ''year'' JNull = JNull"
  by (simp add: dict_get_def)

text \<open>
  C4. In non-partial mode the year block of the validator (lines 95 to 104), on any
  payload object and whatever the errors collected before it: year \<open>-1\<close> and year
  \<open>current_year + 1\<close> append the range message, which names the current year; year
  \<^verbatim>\<open>"abc"\<close> appends "Year must be a valid integer"; year \<open>current_year\<close> appends
  nothing; an absent year appends "Year is required". The current year is not negative
  (\<^verbatim>\<open>datetime\<close> years start at 1).
\<close>

theorem year_rule_cases:
  assumes "0 \<le> cy"
  shows "(map_of kvs ''year'' = Some (JInt (- 1)) \<longrightarrow>
            check_year cy (JObj kvs) False errors
              = Inr (errors @ [''Year must be between 0 and '' @ str_int cy]))
       \<and> (map_of kvs ''year'' = Some (JInt (cy + 1)) \<longrightarrow>
            check_year cy (JObj kvs) False errors
              = Inr (errors @ [''Year must be between 0 and '' @ str_int cy]))
       \<and> (map_of kvs ''year'' = Some (JStr ''abc'') \<longrightarrow>
            check_year cy (JObj kvs) False errors
              = Inr (errors @ [''Year must be a valid integer'']))
       \<and> (map_of kvs ''year'' = Some (JInt cy) \<longrightarrow>
            check_year cy (JObj kvs) False errors = Inr errors)
       \<and> (map_of kvs ''year'' = None \<longrightarrow>
            check_year cy (JObj kvs) False errors = Inr (errors @ [''Year is required'']))"
proof (intro conjI impI)
  assume "map_of kvs ''year'' = Some (JInt (- 1))"
  then show "check_year cy (JObj kvs) False errors
              = Inr (errors @ [''Year must be between 0 and '' @ str_int cy])"
    by (simp add: check_year_obj year_block_present range_message_def)
next
  assume "map_of kvs ''year'' = Some (JInt (cy + 1))"
  then show "check_year cy (JObj kvs) False errors
              = Inr (errors @ [''Year must be between 0 and '' @ str_int cy])"
    by (simp add: check_year_obj year_block_present range_message_def)
next
  assume "map_of kvs ''year'' = Some (JStr ''abc'')"
  then show "check_year cy (JObj kvs) False errors
              = Inr (errors @ [''Year must be a valid integer''])"
    by (simp add: check_year_obj year_block_present int_of_abc del: py_int.simps)
next
  assume "map_of kvs ''year'' = Some (JInt cy)"
  with assms show "check_year cy (JObj kvs) False errors = Inr errors"
    by (simp add: check_year_obj year_block_present)
next
  assume "map_of kvs ''year'' = None"
  then show "check_year cy (JObj kvs) False errors = Inr (errors @ [''Year is required''])"
    by (simp add: check_year_obj year_block_absent)
qed

text \<open>
  The five cases in the year 2026, with the range message written out.
\<close>

theorem year_rule_cases_witness:
  "(0::int) \<le> 2026
   \<and> check_year 2026 (JObj [(''year'', JInt (- 1))]) False []
       = Inr [''Year must be between 0 and 2026'']
   \<and> check_year 2026 (JObj [(''year'', JInt 2027)]) False []
       = Inr [''Year must be between 0 and 2026'']
   \<and> check_year 2026 (JObj [(''year'', JStr ''abc'')]) False []
       = Inr [''Year must be a valid integer'']
   \<and> check_year 2026 (JObj [(''year'', JInt 2026)]) False [] = Inr []
   \<and> check_year 2026 (JObj [(''title'', JStr ''Dune'')]) False [] = Inr [''Year is required'']"
proof -
  have h: "(0::int) \<le> 2026" by simp
  have s: "str_int 2026 = ''2026''" by code_simp
  show ?thesis
    using year_rule_cases [OF h, of "[(''year'', JInt (- 1))]" "[]"]
      year_rule_cases [OF h, of "[(''year'', JInt 2027)]" "[]"]
      year_rule_cases [OF h, of "[(''year'', JStr ''abc'')]" "[]"]
      year_rule_cases [OF h, of "[(''year'', JInt 2026)]" "[]"]
      year_rule_cases [OF h, of "[(''title'', JStr ''Dune'')]" "[]"]
    by (simp add: s)
qed

subsection \<open>C5: update with another Book's isbn, and with its own\<close>

lemma find_other_Some:
  "other \<in> set xs \<Longrightarrow> bid other \<noteq> i \<Longrightarrow> isbn other = v \<Longrightarrow>
   find (\<lambda>b. isbn b = v \<and> bid b \<noteq> i) xs \<noteq> None"
  by (auto simp: find_None_iff)



lemma bid_replace_fields [simp]: "bid (replace_fields b kvs) = bid b"
  by (simp add: replace_fields_def)

lemma created_at_replace_fields [simp]: "created_at (replace_fields b kvs) = created_at b"
  by (simp add: replace_fields_def)

lemma isbn_replace_fields [simp]: "isbn (replace_fields b kvs) = payload_text kvs ''isbn''"
  by (simp add: replace_fields_def)










subsection \<open>C6: store failures during a write\<close>

text \<open>
  What the handlers do guarantee. A failure of a query or of the commit itself leaves
  the table as it was, in create, update and delete; a commit that fails in create is
  answered 500; and delete, which reads nothing after its commit, never answers 500 with
  a changed table.
\<close>

lemma post_failure_before_commit:
  assumes "raises QueryFilter \<or> raises Commit"
  shows "snd (BookList_post cy now raises st data) = st"
proof (cases "truthy data")
  case False
  then show ?thesis by (simp add: post_falsy)
next
  case True
  show ?thesis
  proof (cases "validate_book_data cy data False")
    case (Inl e)
    with True show ?thesis by (simp add: post_validator_raises)
  next
    case (Inr errs)
    show ?thesis
    proof (cases "errs = []")
      case False
      with True Inr show ?thesis by (simp add: post_invalid)
    next
      case e: True
      from Inr obtain kvs where k: "data = JObj kvs" by (auto dest: validate_non_dict)
      with Inr e have v: "validate_book_data cy (JObj kvs) False = Inr []" by simp
      from assms show ?thesis
        unfolding k post_valid [OF v] by (auto split: option.splits)
    qed
  qed
qed

lemma put_failure_before_commit:
  assumes "raises QueryGet \<or> raises QueryFilter \<or> raises Commit"
  shows "snd (BookResource_put cy raises st book_id data) = st"
proof (cases "truthy data")
  case False
  then show ?thesis by (simp add: put_falsy)
next
  case True
  show ?thesis
  proof (cases "raises QueryGet")
    case True
    with \<open>truthy data\<close> show ?thesis by (simp add: put_query_raises)
  next
    case q: False
    show ?thesis
    proof (cases "find (\<lambda>b. bid b = book_id) (rows st)")
      case None
      with True q show ?thesis by (simp add: put_not_found)
    next
      case (Some book)
      show ?thesis
      proof (cases "validate_book_data cy data False")
        case (Inl e)
        with True q Some show ?thesis by (simp add: put_validator_raises)
      next
        case (Inr errs)
        show ?thesis
        proof (cases "errs = []")
          case False
          with True q Some Inr show ?thesis by (simp add: put_invalid)
        next
          case e: True
          from Inr obtain kvs where k: "data = JObj kvs" by (auto dest: validate_non_dict)
          with Inr e have v: "validate_book_data cy (JObj kvs) False = Inr []" by simp
          from assms q show ?thesis
            unfolding k put_valid [where raises = raises, OF v q Some]
            by (auto split: option.splits)
        qed
      qed
    qed
  qed
qed

lemma delete_failure_leaves_table:
  assumes "raises QueryGet \<or> raises Commit"
  shows "snd (BookResource_delete raises st book_id) = st"
  using assms by (auto simp: delete_result split: option.splits)

lemma delete_500_leaves_table:
  "BookResource_delete raises st book_id = ((body, 500), st') \<Longrightarrow> st' = st"
  by (auto simp: delete_result split: option.splits if_splits)

lemma commit_failure_answers_500:
  assumes v: "validate_book_data cy (JObj kvs) False = Inr []" and c: "raises Commit"
      and q: "\<not> raises QueryFilter"
      and l: "lookup_text (dict_get kvs ''isbn'' JNull) = Some s"
      and u: "find (\<lambda>b. isbn b = s) (rows st) = None"
  shows "BookList_post cy now raises st (JObj kvs) = ((Error ''Internal server error'', 500), st)"
  using c q u by (simp add: post_valid [OF v] l)

text \<open>
  C6 does not hold of create and update. Their \<^verbatim>\<open>try\<close> blocks go on after
  \<^verbatim>\<open>db.session.commit()\<close>: line 173 reads \<^verbatim>\<open>book.title\<close> and lines 176 and 249 call
  \<^verbatim>\<open>book.to_dict()\<close>, and the first read of an instance after a commit loads its row
  again. When the store fails at that reload, \<^verbatim>\<open>except Exception\<close> runs the rollback,
  which has nothing left to undo, and answers 500: the caller is told of a failure and
  the write is in the table, where a later get finds it. Evaluated here: the create of
  Dune on the empty table, and an update of Book 1, each with the store failing at the
  reload.
\<close>

theorem reload_failure_after_commit:
  "BookList_post 2026 7 reload_fails empty_store (JObj dune)
     = ((Error ''Internal server error'', 500), dune_store)
   \<and> BookResource_get no_failure empty_store 1 = (Error ''Book not found'', 404)
   \<and> BookResource_get no_failure dune_store 1 = (BookOnly (book_of_payload 1 7 dune), 200)
   \<and> BookResource_put 2026 reload_fails dune_store 1
        (JObj [(''title'', JStr ''Dune Messiah''), (''author'', JStr ''Frank Herbert''),
               (''year'', JInt 1969), (''isbn'', JStr ''9780441013593'')])
     = ((Error ''Internal server error'', 500),
        \<lparr>rows = [\<lparr>bid = 1, title = ''Dune Messiah'', author = ''Frank Herbert'',
                   year = 1969, isbn = ''9780441013593'', created_at = 7\<rparr>],
         next_id = 2, reads_underscores = False\<rparr>)"
proof -
  let ?kvs = "[(''title'', JStr ''Dune Messiah''), (''author'', JStr ''Frank Herbert''),
               (''year'', JInt 1969), (''isbn'', JStr ''9780441013593'')]"
  let ?u = "\<lparr>bid = 1, title = ''Dune Messiah'', author = ''Frank Herbert'',
             year = 1969, isbn = ''9780441013593'', created_at = 7\<rparr>"
  have v: "validate_book_data 2026 (JObj dune) False = Inr []" by code_simp
  have v1: "validate_book_data 2026 (JObj ?kvs) False = Inr []" by code_simp
  have r: "\<not> reload_fails QueryGet" "\<not> reload_fails QueryFilter" "\<not> reload_fails Commit"
    "reload_fails Refresh" "\<not> no_failure QueryGet"
    by (simp_all add: reload_fails_def no_failure_def)
  have l: "lookup_text (dict_get dune ''isbn'' JNull) = Some ''9780441013593''" by code_simp
  have n: "new_row empty_store 7 (dict_get dune ''title'' JNull) (dict_get dune ''author'' JNull)
             (dict_get dune ''year'' JNull) (dict_get dune ''isbn'' JNull)
           = Some (book_of_payload 1 7 dune)"
    by code_simp
  have a: "BookList_post 2026 7 reload_fails empty_store (JObj dune)
     = ((Error ''Internal server error'', 500), dune_store)"
    unfolding post_valid [OF v] l n
    using r by (simp add: refresh_def empty_store_def dune_store_def)
  have b: "BookResource_get no_failure empty_store 1 = (Error ''Book not found'', 404)"
    using r by (simp add: BookResource_get_def query_get_def begin_session_def empty_store_def)
  have f: "find (\<lambda>b. bid b = 1) (rows dune_store) = Some (book_of_payload 1 7 dune)"
    by (simp add: dune_store_def book_of_payload_def)
  have c: "BookResource_get no_failure dune_store 1 = (BookOnly (book_of_payload 1 7 dune), 200)"
    by (rule get_found [where raises = no_failure, OF r(5) f])
  have l1: "lookup_text (dict_get ?kvs ''isbn'' JNull) = Some ''9780441013593''" by code_simp
  have n1: "find (\<lambda>b. isbn b = ''9780441013593'' \<and> bid b \<noteq> 1) (rows dune_store) = None"
    by (simp add: dune_store_def book_of_payload_def)
  have nc: "\<not> no_change (book_of_payload 1 7 dune) (dict_get ?kvs ''title'' JNull)
             (dict_get ?kvs ''author'' JNull) (dict_get ?kvs ''year'' JNull)
             (dict_get ?kvs ''isbn'' JNull)"
    by code_simp
  have u: "updated_row dune_store (book_of_payload 1 7 dune) (dict_get ?kvs ''title'' JNull)
             (dict_get ?kvs ''author'' JNull) (dict_get ?kvs ''year'' JNull)
             (dict_get ?kvs ''isbn'' JNull) = Some ?u"
    by code_simp
  have d: "BookResource_put 2026 reload_fails dune_store 1 (JObj ?kvs)
     = ((Error ''Internal server error'', 500),
        \<lparr>rows = [?u], next_id = 2, reads_underscores = False\<rparr>)"
    unfolding put_valid [where raises = reload_fails, OF v1 r(1) f] l1 u
    using r nc n1
    by (simp add: refresh_def) (simp add: dune_store_def book_of_payload_def)
  show ?thesis using a b c d by simp
qed

subsection \<open>C7: create reports the missing required fields\<close>

lemma year_messages_not_required:
  "e \<in> year_messages cy \<Longrightarrow> e \<notin> required_messages"
  by (auto simp: year_messages_def required_messages_def range_message_def)

lemma filter_required_year:
  "set y \<subseteq> year_messages cy \<Longrightarrow> filter (\<lambda>e. e \<in> required_messages) y = []"
  by (auto simp: filter_empty_conv dest: year_messages_not_required)

text \<open>
  C7, as amended. For every payload object that is not empty, on which validation
  returns, and in which title, author or isbn is absent (or null): create answers 400
  with the validator's list of errors and leaves the table unchanged; the list holds
  "Title is required", "Author is required", "ISBN is required" for each of the three
  that is absent; and these messages stand in the order title, author, isbn.
\<close>

theorem create_reports_missing_required_fields:
  assumes "kvs \<noteq> []"
      and "validate_book_data cy (JObj kvs) False = Inr errs"
      and "dict_get kvs ''title'' JNull = JNull \<or> dict_get kvs ''author'' JNull = JNull
           \<or> dict_get kvs ''isbn'' JNull = JNull"
  shows "BookList_post cy now raises st (JObj kvs) = ((Errors errs, 400), st)
       \<and> (dict_get kvs ''title'' JNull = JNull \<longrightarrow> ''Title is required'' \<in> set errs)
       \<and> (dict_get kvs ''author'' JNull = JNull \<longrightarrow> ''Author is required'' \<in> set errs)
       \<and> (dict_get kvs ''isbn'' JNull = JNull \<longrightarrow> ''ISBN is required'' \<in> set errs)
       \<and> filter (\<lambda>e. e \<in> required_messages) errs =
            (if nonblank_text (dict_get kvs ''title'' JNull) then [] else [''Title is required''])
          @ (if nonblank_text (dict_get kvs ''author'' JNull) then [] else [''Author is required''])
          @ (if truthy (dict_get kvs ''isbn'' JNull) then [] else [''ISBN is required''])"
proof -
  from assms(2) obtain t a y i where
    t: "check_title (JObj kvs) False [] = Inr t" and
    a: "check_author (JObj kvs) False [] = Inr a" and
    y: "check_year cy (JObj kvs) False [] = Inr y" and
    i: "check_isbn (JObj kvs) False [] = Inr i" and
    e: "errs = t @ a @ y @ i"
    by (rule validate_blocks)
  have tv: "t = (if nonblank_text (dict_get kvs ''title'' JNull) then [] else [''Title is required''])"
    using title_block_result [OF t] by simp
  have av: "a = (if nonblank_text (dict_get kvs ''author'' JNull) then [] else [''Author is required''])"
    using author_block_result [OF a] by simp
  have iv: "i = (if truthy (dict_get kvs ''isbn'' JNull) then [] else [''ISBN is required''])"
    using isbn_block_result [OF i] by simp
  from year_block_result [OF y] have ys: "set y \<subseteq> year_messages cy" by auto
  have n: "\<not> nonblank_text JNull" "\<not> truthy JNull" by (simp_all add: nonblank_text_def)
  have m1: "dict_get kvs ''title'' JNull = JNull \<longrightarrow> ''Title is required'' \<in> set errs"
    by (simp add: e tv n)
  have m2: "dict_get kvs ''author'' JNull = JNull \<longrightarrow> ''Author is required'' \<in> set errs"
    by (simp add: e av n)
  have m3: "dict_get kvs ''isbn'' JNull = JNull \<longrightarrow> ''ISBN is required'' \<in> set errs"
    by (simp add: e iv n)
  from assms(3) m1 m2 m3 have ne: "errs \<noteq> []" by auto
  from assms(1) have tr: "truthy (JObj kvs)" by simp
  have p: "BookList_post cy now raises st (JObj kvs) = ((Errors errs, 400), st)"
    by (rule post_invalid [OF tr assms(2) ne])
  have ft: "filter (\<lambda>e. e \<in> required_messages) t = t"
    by (simp add: tv required_messages_def)
  have fa: "filter (\<lambda>e. e \<in> required_messages) a = a"
    by (simp add: av required_messages_def)
  have fi: "filter (\<lambda>e. e \<in> required_messages) i = i"
    by (simp add: iv required_messages_def)
  have "filter (\<lambda>e. e \<in> required_messages) errs = t @ a @ i"
    by (simp add: e ft fa fi filter_required_year [OF ys])
  with tv av iv have
    "filter (\<lambda>e. e \<in> required_messages) errs =
            (if nonblank_text (dict_get kvs ''title'' JNull) then [] else [''Title is required''])
          @ (if nonblank_text (dict_get kvs ''author'' JNull) then [] else [''Author is required''])
          @ (if truthy (dict_get kvs ''isbn'' JNull) then [] else [''ISBN is required''])"
    by simp
  with p m1 m2 m3 show ?thesis by simp
qed

text \<open>
  The theorem at a payload that has a year only.
\<close>

theorem create_reports_missing_required_fields_witness:
  "[(''year'', JInt 1965)] \<noteq> []
   \<and> validate_book_data 2026 (JObj [(''year'', JInt 1965)]) False
       = Inr [''Title is required'', ''Author is required'', ''ISBN is required'']
   \<and> dict_get [(''year'', JInt 1965)] ''title'' JNull = JNull
   \<and> dict_get [(''year'', JInt 1965)] ''author'' JNull = JNull
   \<and> dict_get [(''year'', JInt 1965)] ''isbn'' JNull = JNull
   \<and> BookList_post 2026 7 no_failure empty_store (JObj [(''year'', JInt 1965)])
       = ((Errors [''Title is required'', ''Author is required'', ''ISBN is required''], 400),
          empty_store)"
proof -
  have a: "[(''year'', JInt 1965)] \<noteq> []" by simp
  have b: "validate_book_data 2026 (JObj [(''year'', JInt 1965)]) False
       = Inr [''Title is required'', ''Author is required'', ''ISBN is required'']"
    by code_simp
  have c: "dict_get [(''year'', JInt 1965)] ''title'' JNull = JNull"
          "dict_get [(''year'', JInt 1965)] ''author'' JNull = JNull"
          "dict_get [(''year'', JInt 1965)] ''isbn'' JNull = JNull"
    by (simp_all add: dict_get_def)
  from c have d: "dict_get [(''year'', JInt 1965)] ''title'' JNull = JNull
           \<or> dict_get [(''year'', JInt 1965)] ''author'' JNull = JNull
           \<or> dict_get [(''year'', JInt 1965)] ''isbn'' JNull = JNull"
    by simp
  from create_reports_missing_required_fields [OF a b d, of 7 no_failure empty_store] a b c
  show ?thesis by simp
qed

text \<open>
  C7 as stated fails at the empty JSON object: it is falsy, so the guard of line 150
  answers "No JSON data provided" before the validator runs, although the validator
  would report all four fields.
\<close>

theorem create_empty_object_counterexample:
  "BookList_post 2026 7 no_failure empty_store (JObj [])
     = ((Error ''No JSON data provided'', 400), empty_store)
   \<and> validate_book_data 2026 (JObj []) False
     = Inr [''Title is required'', ''Author is required'', ''Year is required'',
            ''ISBN is required'']"
proof -
  have "BookList_post 2026 7 no_failure empty_store (JObj [])
     = ((Error ''No JSON data provided'', 400), empty_store)"
    by (simp add: post_falsy)
  moreover have "validate_book_data 2026 (JObj []) False
     = Inr [''Title is required'', ''Author is required'', ''Year is required'',
            ''ISBN is required'']"
    by code_simp
  ultimately show ?thesis by simp
qed

subsection \<open>C8: how an update conflict is rendered\<close>

text \<open>
  C8, as amended. Every update that answers 409 has the body
  \<^verbatim>\<open>{error: 'Another book with this ISBN already exists'}\<close>, leaves the table unchanged,
  and was sent a payload object whose isbn a Book with a different id holds.
\<close>

lemma lookup_text_Some: "lookup_text v = Some s \<Longrightarrow> v = JStr s"
  by (cases v) (simp_all split: if_splits)

theorem update_conflict_rendering:
  assumes "BookResource_put cy raises st book_id data = ((body, 409), st')"
  shows "body = Error ''Another book with this ISBN already exists'' \<and> st' = st
       \<and> (\<exists>kvs other. data = JObj kvs \<and> other \<in> set (rows st) \<and> bid other \<noteq> book_id
              \<and> JStr (isbn other) = dict_get kvs ''isbn'' JNull)"
proof (cases "truthy data")
  case False
  with assms show ?thesis by (simp add: put_falsy)
next
  case True
  show ?thesis
  proof (cases "raises QueryGet")
    case True
    with assms \<open>truthy data\<close> show ?thesis by (simp add: put_query_raises)
  next
    case q: False
    show ?thesis
    proof (cases "find (\<lambda>b. bid b = book_id) (rows st)")
      case None
      with assms True q show ?thesis by (simp add: put_not_found)
    next
      case (Some book)
      show ?thesis
      proof (cases "validate_book_data cy data False")
        case (Inl e)
        with assms True q Some show ?thesis by (simp add: put_validator_raises)
      next
        case (Inr errs)
        show ?thesis
        proof (cases "errs = []")
          case False
          with assms True q Some Inr show ?thesis by (simp add: put_invalid)
        next
          case e: True
          from Inr obtain kvs where k: "data = JObj kvs" by (auto dest: validate_non_dict)
          with Inr e have v: "validate_book_data cy (JObj kvs) False = Inr []" by simp
          from assms have c: "body = Error ''Another book with this ISBN already exists''"
            "st' = st"
            "\<exists>n. lookup_text (dict_get kvs ''isbn'' JNull) = Some n
               \<and> find (\<lambda>b. isbn b = n \<and> bid b \<noteq> book_id) (rows st) \<noteq> None"
            unfolding k put_valid [where raises = raises, OF v q Some]
            by (auto split: if_splits sum.splits option.splits)
          from c(3) obtain n other where
            l: "lookup_text (dict_get kvs ''isbn'' JNull) = Some n" and
            "find (\<lambda>b. isbn b = n \<and> bid b \<noteq> book_id) (rows st) = Some other"
            by auto
          then have "other \<in> set (rows st) \<and> bid other \<noteq> book_id \<and> isbn other = n"
            by (auto simp: find_Some_iff)
          with lookup_text_Some [OF l]
          have "other \<in> set (rows st) \<and> bid other \<noteq> book_id
                     \<and> JStr (isbn other) = dict_get kvs ''isbn'' JNull"
            by simp
          with c(1,2) k show ?thesis by blast
        qed
      qed
    qed
  qed
qed

text \<open>
  The table of the witness and of the counterexample holds Book 1 (Dune) and Book 2
  (Emma); the update asks to give Book 2 the fields of Dune, isbn included.
\<close>

lemma two_books_put:
  "BookResource_put 2026 no_failure two_books_store 2 (JObj dune)
     = ((Error ''Another book with this ISBN already exists'', 409), two_books_store)"
proof -
  have v: "validate_book_data 2026 (JObj dune) False = Inr []" by code_simp
  have q: "\<not> no_failure QueryGet" by (simp add: no_failure_def)
  have f: "find (\<lambda>b. bid b = 2) (rows two_books_store) = Some (book_of_payload 2 8 emma)"
    by (simp add: two_books_store_def book_of_payload_def)
  have l: "lookup_text (dict_get dune ''isbn'' JNull) = Some ''9780441013593''" by code_simp
  have i: "isbn (book_of_payload 1 7 dune) = ''9780441013593''" by code_simp
  have o: "find (\<lambda>b. isbn b = ''9780441013593'' \<and> bid b \<noteq> 2) (rows two_books_store) \<noteq> None"
  proof -
    have "book_of_payload 1 7 dune \<in> set (rows two_books_store)"
      by (simp add: two_books_store_def)
    moreover have "bid (book_of_payload 1 7 dune) \<noteq> 2" by (simp add: book_of_payload_def)
    ultimately show ?thesis using i by (rule find_other_Some)
  qed
  show ?thesis
    unfolding put_valid [where raises = no_failure, OF v q f] l using o
    by (simp add: no_failure_def)
qed

theorem update_conflict_rendering_witness:
  "BookResource_put 2026 no_failure two_books_store 2 (JObj dune)
     = ((Error ''Another book with this ISBN already exists'', 409), two_books_store)
   \<and> (\<exists>kvs other. JObj dune = JObj kvs \<and> other \<in> set (rows two_books_store) \<and> bid other \<noteq> 2
              \<and> JStr (isbn other) = dict_get kvs ''isbn'' JNull)"
  using update_conflict_rendering [OF two_books_put] two_books_put by simp

text \<open>
  C8 as stated fails: the body of update's 409 is not the body of create's 409. Line 237
  has its own message.
\<close>

theorem update_conflict_body_counterexample:
  "BookResource_put 2026 no_failure two_books_store 2 (JObj dune)
     = ((Error ''Another book with this ISBN already exists'', 409), two_books_store)
   \<and> fst (BookResource_put 2026 no_failure two_books_store 2 (JObj dune))
       \<noteq> (Error ''Book with this ISBN already exists'', 409)"
  by (simp add: two_books_put)

subsection \<open>C9: a title or author that is not a string\<close>

lemma title_block_raises:
  "truthy (dict_get kvs ''title'' JNull) \<Longrightarrow> \<not> is_text (dict_get kvs ''title'' JNull) \<Longrightarrow>
   check_title (JObj kvs) False errs = Inl AttributeError"
  by (cases "dict_get kvs ''title'' JNull") (simp_all add: check_title_obj is_text_def)

lemma author_block_raises:
  "truthy (dict_get kvs ''author'' JNull) \<Longrightarrow> \<not> is_text (dict_get kvs ''author'' JNull) \<Longrightarrow>
   check_author (JObj kvs) False errs = Inl AttributeError"
  by (cases "dict_get kvs ''author'' JNull") (simp_all add: check_author_obj is_text_def)

lemma title_block_error:
  "check_title (JObj kvs) False errs = Inl e \<Longrightarrow> e = AttributeError"
  by (cases "dict_get kvs ''title'' JNull") (auto simp: check_title_obj split: if_splits)

lemma validate_raises_attribute_error:
  assumes "truthy v" and "\<not> is_text v"
      and "map_of kvs ''title'' = Some v \<or> map_of kvs ''author'' = Some v"
  shows "validate_book_data cy (JObj kvs) False = Inl AttributeError"
proof (cases "check_title (JObj kvs) False []")
  case (Inl e)
  with title_block_error [OF Inl] show ?thesis by (simp add: validate_book_data_def)
next
  case (Inr e1)
  have "map_of kvs ''title'' \<noteq> Some v"
  proof
    assume "map_of kvs ''title'' = Some v"
    then have "dict_get kvs ''title'' JNull = v" by (simp add: dict_get_def)
    with assms(1,2) have "check_title (JObj kvs) False [] = Inl AttributeError"
      by (simp add: title_block_raises)
    with Inr show False by simp
  qed
  with assms(3) have "dict_get kvs ''author'' JNull = v" by (simp add: dict_get_def)
  with assms(1,2) have "check_author (JObj kvs) False e1 = Inl AttributeError"
    by (simp add: author_block_raises)
  with Inr show ?thesis by (simp add: validate_book_data_def)
qed

text \<open>
  C9. When the payload's title or author is present, truthy and not a string (a
  non-zero number, \<^verbatim>\<open>true\<close>, a non-empty list or object), the validator does not return
  a list of errors: \<^verbatim>\<open>.strip()\<close> raises AttributeError (lines 88 and 92). The handlers
  catch it with every other exception, so create answers 500 "Internal server error",
  and so does update of an existing Book, instead of 400 with validation errors; the
  table is unchanged.
\<close>

theorem non_string_title_or_author_gives_500:
  assumes "truthy v" and "\<not> is_text v"
      and "map_of kvs ''title'' = Some v \<or> map_of kvs ''author'' = Some v"
  shows "validate_book_data cy (JObj kvs) False = Inl AttributeError
       \<and> BookList_post cy now raises st (JObj kvs) = ((Error ''Internal server error'', 500), st)
       \<and> (find (\<lambda>b. bid b = book_id) (rows st) \<noteq> None \<longrightarrow>
            BookResource_put cy raises st book_id (JObj kvs)
              = ((Error ''Internal server error'', 500), st))"
proof -
  have val: "validate_book_data cy (JObj kvs) False = Inl AttributeError"
    by (rule validate_raises_attribute_error [OF assms])
  from assms(3) have ne: "truthy (JObj kvs)" by auto
  have post: "BookList_post cy now raises st (JObj kvs) = ((Error ''Internal server error'', 500), st)"
    by (rule post_validator_raises [OF ne val])
  have put: "BookResource_put cy raises st book_id (JObj kvs)
              = ((Error ''Internal server error'', 500), st)"
    if "find (\<lambda>b. bid b = book_id) (rows st) \<noteq> None"
  proof (cases "raises QueryGet")
    case True
    then show ?thesis by (rule put_query_raises [where raises = raises, OF ne])
  next
    case False
    from that obtain book where bk: "find (\<lambda>b. bid b = book_id) (rows st) = Some book"
      by auto
    show ?thesis by (rule put_validator_raises [where raises = raises, OF ne False bk val])
  qed
  from val post put show ?thesis by simp
qed

text \<open>
  The theorem at the title 5, for a create on the empty table and an update of Book 1.
\<close>

theorem non_string_title_or_author_gives_500_witness:
  "truthy (JInt 5) \<and> \<not> is_text (JInt 5)
   \<and> validate_book_data 2026
        (JObj [(''title'', JInt 5), (''author'', JStr ''Herbert''), (''year'', JInt 1965),
               (''isbn'', JStr ''9780441013593'')]) False = Inl AttributeError
   \<and> BookList_post 2026 7 no_failure empty_store
        (JObj [(''title'', JInt 5), (''author'', JStr ''Herbert''), (''year'', JInt 1965),
               (''isbn'', JStr ''9780441013593'')])
      = ((Error ''Internal server error'', 500), empty_store)
   \<and> find (\<lambda>b. bid b = 1) (rows dune_store) \<noteq> None
   \<and> BookResource_put 2026 no_failure dune_store 1
        (JObj [(''title'', JInt 5), (''author'', JStr ''Herbert''), (''year'', JInt 1965),
               (''isbn'', JStr ''9780441013593'')])
      = ((Error ''Internal server error'', 500), dune_store)"
proof -
  let ?kvs = "[(''title'', JInt 5), (''author'', JStr ''Herbert''), (''year'', JInt 1965),
               (''isbn'', JStr ''9780441013593'')]"
  have a: "truthy (JInt 5)" by simp
  have b: "\<not> is_text (JInt 5)" by (simp add: is_text_def)
  have c: "map_of ?kvs ''title'' = Some (JInt 5) \<or> map_of ?kvs ''author'' = Some (JInt 5)"
    by simp
  have d: "find (\<lambda>b. bid b = 1) (rows dune_store) \<noteq> None"
    by (simp add: dune_store_def book_of_payload_def)
  from non_string_title_or_author_gives_500 [OF a b c, of 2026 7 no_failure empty_store]
    non_string_title_or_author_gives_500 [OF a b c, of 2026 7 no_failure dune_store 1] a b d
  show ?thesis by simp
qed

subsection \<open>C10: the year rule accepts whatever int() converts\<close>










end
